theory Spec2Isabelle
  imports Complex_Main "HOL-Library.Word"
begin

unbundle bit_operations_syntax

section \<open>Machine types of minimodem.c\<close>

text \<open>
  The integer variables of \<^verbatim>\<open>minimodem.c\<close> keep their C widths (LP64): \<^verbatim>\<open>char\<close> is an
  8-bit word, \<^verbatim>\<open>unsigned int\<close> a 32-bit word, \<^verbatim>\<open>size_t\<close> and
  \<^verbatim>\<open>unsigned long long\<close> 64-bit words; their arithmetic wraps around.
  \<^verbatim>\<open>int\<close> and \<^verbatim>\<open>ssize_t\<close> values that are only compared and never overflow in
  the code under study are mathematical integers.
\<close>

type_synonym u8 = "8 word"
type_synonym u32 = "32 word"
type_synonym u64 = "64 word"

definition u32_to_u64 :: "u32 \<Rightarrow> u64" where
  "u32_to_u64 w = ucast w"

definition u64_to_u32 :: "u64 \<Rightarrow> u32" where
  "u64_to_u32 w = ucast w"

section \<open>Floating-point arithmetic\<close>

text \<open>
  A \<^verbatim>\<open>float\<close> or \<^verbatim>\<open>double\<close> value is a real number, the negative zero, an
  infinity, or NaN (IEEE 754); \<open>Finite 0\<close> is the positive zero.  The values of type
  \<^verbatim>\<open>float\<close> are the binary32 numbers and those of type \<^verbatim>\<open>double\<close> the binary64
  numbers, so a \<^verbatim>\<open>float\<close> is converted to \<^verbatim>\<open>double\<close> without change.
\<close>

datatype cfloat = Finite real | Minus_zero | Plus_infinity | Minus_infinity | NaN

abbreviation INFINITY :: cfloat where
  "INFINITY \<equiv> Plus_infinity"

text \<open>Rounding to the nearest integer, a tie to the even one.\<close>

definition round_half_even :: "real \<Rightarrow> int" where
  "round_half_even y =
     (let f = \<lfloor>y\<rfloor>; d = y - of_int f
      in if d < 1 / 2 then f else if 1 / 2 < d then f + 1 else if even f then f else f + 1)"

text \<open>
  The result of an operation is its exact value rounded to the nearest number of the
  format, a tie to the one with an even significand (the rounding mode in force when a
  C program starts).  A format has \<open>p\<close> bits of precision, its numbers are the
  multiples \<open>n * 2^q\<close> with \<open>n < 2^p\<close> and \<open>q \<ge> qmin\<close>, below \<open>2^emax\<close>; an
  exact value that rounds to \<open>2^emax\<close> or more overflows to an infinity, and one that
  rounds to nothing underflows to a zero of its sign.
\<close>

definition fp_round :: "nat \<Rightarrow> int \<Rightarrow> nat \<Rightarrow> real \<Rightarrow> cfloat" where
  "fp_round p qmin emax x =
     (if x = 0 then Finite 0
      else
        (let e = \<lfloor>log 2 \<bar>x\<bar>\<rfloor>;
             q = max (e - int p + 1) qmin;
             n = round_half_even (\<bar>x\<bar> / 2 powi q);
             r = of_int n * 2 powi q
         in if 2 ^ emax \<le> r then (if x < 0 then Minus_infinity else Plus_infinity)
            else if n = 0 then (if x < 0 then Minus_zero else Finite 0)
            else Finite (if x < 0 then - r else r)))"

text \<open>binary32 (\<^verbatim>\<open>float\<close>) and binary64 (\<^verbatim>\<open>double\<close>).\<close>

definition rnd32 :: "real \<Rightarrow> cfloat" where
  "rnd32 = fp_round 24 (- 149) 128"

definition rnd64 :: "real \<Rightarrow> cfloat" where
  "rnd64 = fp_round 53 (- 1074) 1024"

text \<open>The real value of a finite number, and the sign bit.  The sign of a NaN is not
  determined by C; the model's NaN has none.\<close>

fun fval :: "cfloat \<Rightarrow> real" where
  "fval (Finite x) = x"
| "fval Minus_zero = 0"
| "fval Plus_infinity = 0"
| "fval Minus_infinity = 0"
| "fval NaN = 0"

fun signbit :: "cfloat \<Rightarrow> bool" where
  "signbit (Finite x) = (x < 0)"
| "signbit Minus_zero = True"
| "signbit Plus_infinity = False"
| "signbit Minus_infinity = True"
| "signbit NaN = False"

definition isinf :: "cfloat \<Rightarrow> bool" where
  "isinf a \<longleftrightarrow> a = Plus_infinity \<or> a = Minus_infinity"

definition iszero :: "cfloat \<Rightarrow> bool" where
  "iszero a \<longleftrightarrow> a = Finite 0 \<or> a = Minus_zero"

definition signed_zero :: "bool \<Rightarrow> cfloat" where
  "signed_zero negative = (if negative then Minus_zero else Finite 0)"

definition signed_infinity :: "bool \<Rightarrow> cfloat" where
  "signed_infinity negative = (if negative then Minus_infinity else Plus_infinity)"

text \<open>The constant \<open>0\<close> and the comparisons \<^verbatim>\<open><=\<close> and \<^verbatim>\<open><\<close> of C (\<^verbatim>\<open>>=\<close> and
  \<^verbatim>\<open>>\<close> are the same with the operands exchanged): a comparison with a NaN is
  false, and the two zeros are equal.\<close>

instantiation cfloat :: zero
begin
definition zero_cfloat :: cfloat where
  "0 = Finite 0"
instance ..
end

instantiation cfloat :: ord
begin
definition less_eq_cfloat :: "cfloat \<Rightarrow> cfloat \<Rightarrow> bool" where
  "a \<le> b \<longleftrightarrow>
     a \<noteq> NaN \<and> b \<noteq> NaN
     \<and> (a = Minus_infinity \<or> b = Plus_infinity
        \<or> (a \<noteq> Plus_infinity \<and> b \<noteq> Minus_infinity \<and> fval a \<le> fval b))"
definition less_cfloat :: "cfloat \<Rightarrow> cfloat \<Rightarrow> bool" where
  "a < b \<longleftrightarrow>
     a \<noteq> NaN \<and> b \<noteq> NaN \<and> a \<noteq> Plus_infinity \<and> b \<noteq> Minus_infinity
     \<and> (a = Minus_infinity \<or> b = Plus_infinity \<or> fval a < fval b)"
instance ..
end

text \<open>Negation, \<^verbatim>\<open>fabs\<close> and \<^verbatim>\<open>ceilf\<close>.\<close>

fun fp_neg :: "cfloat \<Rightarrow> cfloat" where
  "fp_neg (Finite x) = (if x = 0 then Minus_zero else Finite (- x))"
| "fp_neg Minus_zero = Finite 0"
| "fp_neg Plus_infinity = Minus_infinity"
| "fp_neg Minus_infinity = Plus_infinity"
| "fp_neg NaN = NaN"

fun fabs :: "cfloat \<Rightarrow> cfloat" where
  "fabs (Finite x) = Finite \<bar>x\<bar>"
| "fabs Minus_zero = Finite 0"
| "fabs Plus_infinity = Plus_infinity"
| "fabs Minus_infinity = Plus_infinity"
| "fabs NaN = NaN"

fun ceilf :: "cfloat \<Rightarrow> cfloat" where
  "ceilf (Finite x) = (if \<lceil>x\<rceil> = 0 \<and> x < 0 then Minus_zero else Finite (of_int \<lceil>x\<rceil>))"
| "ceilf Minus_zero = Minus_zero"
| "ceilf Plus_infinity = Plus_infinity"
| "ceilf Minus_infinity = Minus_infinity"
| "ceilf NaN = NaN"

text \<open>
  The four operations, with the rounding of the format as a parameter.  A NaN operand
  gives NaN, as do \<open>\<infinity> - \<infinity>\<close>, \<open>0 * \<infinity>\<close>, \<open>\<infinity> / \<infinity>\<close> and \<open>0 / 0\<close>; a nonzero number
  divided by a zero is an infinity.  An exact sum of zero is the positive zero unless
  both operands are the negative zero; the sign of a product or quotient that is a zero
  or an infinity is the exclusive or of the signs of the operands.
\<close>

definition fp_add :: "(real \<Rightarrow> cfloat) \<Rightarrow> cfloat \<Rightarrow> cfloat \<Rightarrow> cfloat" where
  "fp_add rnd a b =
     (if a = NaN \<or> b = NaN then NaN
      else if isinf a then (if isinf b \<and> b \<noteq> a then NaN else a)
      else if isinf b then b
      else if fval a + fval b = 0
        then (if a = Minus_zero \<and> b = Minus_zero then Minus_zero else Finite 0)
      else rnd (fval a + fval b))"

definition fp_sub :: "(real \<Rightarrow> cfloat) \<Rightarrow> cfloat \<Rightarrow> cfloat \<Rightarrow> cfloat" where
  "fp_sub rnd a b = fp_add rnd a (fp_neg b)"

definition fp_mul :: "(real \<Rightarrow> cfloat) \<Rightarrow> cfloat \<Rightarrow> cfloat \<Rightarrow> cfloat" where
  "fp_mul rnd a b =
     (if a = NaN \<or> b = NaN then NaN
      else if isinf a \<or> isinf b
        then (if iszero a \<or> iszero b then NaN else signed_infinity (signbit a \<noteq> signbit b))
      else if fval a * fval b = 0 then signed_zero (signbit a \<noteq> signbit b)
      else rnd (fval a * fval b))"

definition fp_div :: "(real \<Rightarrow> cfloat) \<Rightarrow> cfloat \<Rightarrow> cfloat \<Rightarrow> cfloat" where
  "fp_div rnd a b =
     (if a = NaN \<or> b = NaN then NaN
      else if isinf a then (if isinf b then NaN else signed_infinity (signbit a \<noteq> signbit b))
      else if isinf b then signed_zero (signbit a \<noteq> signbit b)
      else if iszero b then (if iszero a then NaN else signed_infinity (signbit a \<noteq> signbit b))
      else if iszero a then signed_zero (signbit a \<noteq> signbit b)
      else rnd (fval a / fval b))"

text \<open>
  The operations of C on two \<^verbatim>\<open>float\<close> operands (\<open>32\<close>) and on operands of which one
  is a \<^verbatim>\<open>double\<close> (\<open>64\<close>): each operation is rounded on its own to the format of
  its type (\<^verbatim>\<open>FLT_EVAL_METHOD\<close> 0, and no product and sum contracted into one fused
  operation, as the program is compiled for x86-64).
\<close>

definition add32 :: "cfloat \<Rightarrow> cfloat \<Rightarrow> cfloat" where
  "add32 = fp_add rnd32"

definition sub32 :: "cfloat \<Rightarrow> cfloat \<Rightarrow> cfloat" where
  "sub32 = fp_sub rnd32"

definition mul32 :: "cfloat \<Rightarrow> cfloat \<Rightarrow> cfloat" where
  "mul32 = fp_mul rnd32"

definition div32 :: "cfloat \<Rightarrow> cfloat \<Rightarrow> cfloat" where
  "div32 = fp_div rnd32"

definition add64 :: "cfloat \<Rightarrow> cfloat \<Rightarrow> cfloat" where
  "add64 = fp_add rnd64"

definition mul64 :: "cfloat \<Rightarrow> cfloat \<Rightarrow> cfloat" where
  "mul64 = fp_mul rnd64"

definition div64 :: "cfloat \<Rightarrow> cfloat \<Rightarrow> cfloat" where
  "div64 = fp_div rnd64"

text \<open>
  Conversions.  An integer is rounded to the format; a \<^verbatim>\<open>double\<close> is rounded to
  \<^verbatim>\<open>float\<close>.  The conversion of a floating-point value to an integer type truncates
  towards zero, as C prescribes for a value in range.  Outside the range of the type,
  and for an infinity or NaN, C leaves the conversion undefined: there the model wraps a
  finite value around and takes 0 for the others.
\<close>

definition int_to_float :: "int \<Rightarrow> cfloat" where
  "int_to_float k = rnd32 (of_int k)"

definition int_to_double :: "int \<Rightarrow> cfloat" where
  "int_to_double k = rnd64 (of_int k)"

definition u32_to_float :: "u32 \<Rightarrow> cfloat" where
  "u32_to_float w = rnd32 (real (unat w))"

definition u64_to_float :: "u64 \<Rightarrow> cfloat" where
  "u64_to_float w = rnd32 (real (unat w))"

definition double_to_float :: "cfloat \<Rightarrow> cfloat" where
  "double_to_float a = (case a of Finite x \<Rightarrow> rnd32 x | _ \<Rightarrow> a)"

definition c_trunc :: "real \<Rightarrow> int" where
  "c_trunc x = (if 0 \<le> x then \<lfloor>x\<rfloor> else \<lceil>x\<rceil>)"

definition float_to_int :: "cfloat \<Rightarrow> int" where
  "float_to_int a = c_trunc (fval a)"

definition float_to_u32 :: "cfloat \<Rightarrow> u32" where
  "float_to_u32 a = word_of_int (float_to_int a)"

definition float_to_u64 :: "cfloat \<Rightarrow> u64" where
  "float_to_u64 a = word_of_int (float_to_int a)"

section \<open>Framebits decoders and encoders\<close>


text \<open>
  A framebits decoder is called through the function pointer
  \<^verbatim>\<open>bfsk_framebits_decode\<close>, either with a null output buffer (reset of the frame
  processor) or with the data bits of a frame.  The decoder may own state (the Baudot
  shift), which the model passes explicitly.  A failed \<^verbatim>\<open>assert\<close> is the value
  \<open>None\<close>.
\<close>

record 'd framebits_decoder =
  decode_reset :: "'d \<Rightarrow> 'd"
  decode_frame :: "'d \<Rightarrow> u32 \<Rightarrow> u32 \<Rightarrow> (u8 list \<times> 'd) option"

definition framebits_decode_ascii8 :: "'d framebits_decoder" where
  "framebits_decode_ascii8 =
     \<lparr> decode_reset = (\<lambda>d. d),
       decode_frame = (\<lambda>d dataout_size bits.
         if bits AND NOT 0xFF \<noteq> 0 then None
         else if \<not> 1 \<le> dataout_size then None
         else Some ([ucast bits], d)) \<rparr>"

text \<open>
  \<^verbatim>\<open>framebits_decode_baudot\<close> delegates to \<^verbatim>\<open>baudot_reset\<close> and
  \<^verbatim>\<open>baudot_decode\<close> of \<^verbatim>\<open>baudot.c\<close>, which are parameters here.
\<close>

definition framebits_decode_baudot ::
  "('d \<Rightarrow> 'd) \<Rightarrow> ('d \<Rightarrow> u32 \<Rightarrow> u8 list \<times> 'd) \<Rightarrow> 'd framebits_decoder" where
  "framebits_decode_baudot baudot_reset baudot_decode =
     \<lparr> decode_reset = baudot_reset,
       decode_frame = (\<lambda>d dataout_size bits.
         if bits AND NOT 0x1F \<noteq> 0 then None
         else if \<not> 1 \<le> dataout_size then None
         else Some (baudot_decode d bits)) \<rparr>"

section \<open>The BFSK transmitter\<close>
















section \<open>The receiver: data\<close>

text \<open>
  The fields of \<^verbatim>\<open>fsk_plan\<close> (declared in \<^verbatim>\<open>fsk.h\<close>) that
  \<^verbatim>\<open>minimodem.c\<close> reads; \<open>band_width\<close> is a \<^verbatim>\<open>float\<close>.  The plan is made by
  \<^verbatim>\<open>fsk_plan_new\<close>, which is not part of this file, so its fields are unconstrained
  here.
\<close>

record fsk_plan =
  n_data_bits :: u32
  n_frame_bits :: u32
  fftsize :: int
  band_width :: cfloat
  b_mark :: u32
  b_space :: u32

text \<open>Modelled from the spec: \<^verbatim>\<open>fsk_set_tones_by_bandshift\<close> of \<^verbatim>\<open>fsk.c\<close> is
  missing; it "rebinds mark to \<open>b_mark\<close> and space to \<open>b_mark + b_shift\<close>".\<close>

definition fsk_set_tones_by_bandshift :: "fsk_plan \<Rightarrow> int \<Rightarrow> int \<Rightarrow> fsk_plan" where
  "fsk_set_tones_by_bandshift fskp b_mark' b_shift =
     fskp \<lparr> b_mark := word_of_int b_mark', b_space := word_of_int (b_mark' + b_shift) \<rparr>"

text \<open>The lines written to standard error, with the values that \<^verbatim>\<open>fprintf\<close> is
  given (a \<^verbatim>\<open>float\<close> argument is passed as the same \<^verbatim>\<open>double\<close>).\<close>

datatype rate_note = Rate_perfect | Rate_skew cfloat string

datatype carrier_rate = Rate_rounded u32 | Rate_exact cfloat

datatype message =
    Simpleaudio_read_error
  | CARRIER carrier_rate cfloat
  | NOCARRIER u32 cfloat cfloat rate_note

text \<open>The settings of \<^verbatim>\<open>main\<close> that the receive loop reads; the four
  floating-point ones are \<^verbatim>\<open>float\<close> variables.\<close>

record rx_config =
  sample_rate :: u32
  bfsk_data_rate :: cfloat
  fsk_confidence_threshold :: cfloat
  fsk_confidence_search_limit :: cfloat
  carrier_autodetect_threshold :: cfloat
  autodetect_shift :: int
  quiet_mode :: bool

text \<open>The variables of \<^verbatim>\<open>main\<close> that the receive loop changes, the state of the
  framebits decoder, and the two output streams.  \<open>samples_readptr\<close> is the offset of
  the read pointer into \<^verbatim>\<open>samplebuf\<close>; \<open>confidence_total\<close> is a \<^verbatim>\<open>float\<close>.\<close>

record 'd rx_state =
  fskp :: fsk_plan
  samples_readptr :: u64
  read_nsamples :: u64
  samples_nvalid :: u64
  ret :: int
  carrier :: bool
  confidence_total :: cfloat
  nframes_decoded :: u32
  carrier_nsamples :: u64
  noconfidence :: u32
  advance :: u32
  carrier_band :: int
  decoder_state :: 'd
  stdout :: "u8 list"
  stderr :: "message list"

text \<open>The arguments of the call of \<^verbatim>\<open>fsk_find_frame\<close>;
  \<open>try_confidence_search_limit\<close> is a \<^verbatim>\<open>float\<close>.\<close>

record find_frame_args =
  frame_nsamples :: u32
  try_first_sample :: u32
  try_max_nsamples :: u32
  try_step_nsamples :: u32
  try_confidence_search_limit :: cfloat

text \<open>
  What the audio backend and the FSK module (\<^verbatim>\<open>simpleaudio.c\<close>, \<^verbatim>\<open>fsk.c\<close>) answer
  in one turn of the main loop: the return value of \<^verbatim>\<open>simpleaudio_read\<close>, the
  return value of \<^verbatim>\<open>fsk_detect_carrier\<close> on the window at a sample offset, and the
  confidence (a \<^verbatim>\<open>float\<close>), bits and frame start sample that \<^verbatim>\<open>fsk_find_frame\<close>
  gives for its arguments.
\<close>

record rx_input =
  simpleaudio_read :: int
  fsk_detect_carrier :: "u32 \<Rightarrow> int"
  fsk_find_frame :: "find_frame_args \<Rightarrow> cfloat \<times> u32 \<times> u32"

text \<open>How a section of the loop body ends: control goes on to the next section, the
  loop continues with its next turn, the loop is left, an assertion fails, or an inner
  loop never ends.\<close>

datatype 'a ctl = Proceed 'a | Continue 'a | Break 'a | Abort | Hang

section \<open>The receiver: before the main loop\<close>

text \<open>Lines 628--630: the search limit is sanitized.\<close>

definition sanitize_search_limit :: "rx_config \<Rightarrow> rx_config" where
  "sanitize_search_limit cfg =
     (if fsk_confidence_search_limit cfg < fsk_confidence_threshold cfg
      then cfg \<lparr> fsk_confidence_search_limit := fsk_confidence_threshold cfg \<rparr>
      else cfg)"

text \<open>Line 691: \<^verbatim>\<open>float nsamples_per_bit = sample_rate / bfsk_data_rate\<close>, the
  \<^verbatim>\<open>float\<close> quotient of the sample rate converted to \<^verbatim>\<open>float\<close>.\<close>

definition nsamples_per_bit :: "rx_config \<Rightarrow> cfloat" where
  "nsamples_per_bit cfg = div32 (u32_to_float (sample_rate cfg)) (bfsk_data_rate cfg)"

text \<open>Line 715: \<^verbatim>\<open>size_t samplebuf_size = ceilf(nsamples_per_bit) * (12+1)\<close>, a
  \<^verbatim>\<open>float\<close> product.\<close>

definition samplebuf_size :: "rx_config \<Rightarrow> u64" where
  "samplebuf_size cfg = float_to_u64 (mul32 (ceilf (nsamples_per_bit cfg)) (int_to_float (12 + 1)))"

definition fsk_frame_overscan :: cfloat where
  "fsk_frame_overscan = Finite (1 / 2)"

text \<open>Lines 748--751: \<^verbatim>\<open>nsamples_per_bit * fsk_frame_overscan + 0.5\<close> is a
  \<^verbatim>\<open>float\<close> product and a \<^verbatim>\<open>double\<close> sum.\<close>

definition nsamples_overscan :: "rx_config \<Rightarrow> u32" where
  "nsamples_overscan cfg =
     (let n = float_to_u32 (add64 (mul32 (nsamples_per_bit cfg) fsk_frame_overscan) (Finite (1 / 2)))
      in if 0 < fsk_frame_overscan \<and> n = 0 then 1 else n)"

definition rx_init :: "rx_config \<Rightarrow> fsk_plan \<Rightarrow> 'd \<Rightarrow> 'd rx_state" where
  "rx_init cfg plan d =
     \<lparr> fskp = plan,
       samples_readptr = 0,
       read_nsamples = samplebuf_size cfg,
       samples_nvalid = 0,
       ret = 0,
       carrier = False,
       confidence_total = 0,
       nframes_decoded = 0,
       carrier_nsamples = 0,
       noconfidence = 0,
       advance = 0,
       carrier_band = - 1,
       decoder_state = d,
       stdout = [],
       stderr = [] \<rparr>"

section \<open>The NOCARRIER report\<close>

text \<open>
  Lines 195--226.  \<open>nbits_total\<close> is the 32-bit product, widened afterwards; its
  product with the sample rate is made in 64 bits and converted to \<^verbatim>\<open>float\<close> for the
  division.  The throughput, the average confidence and the skew are \<^verbatim>\<open>float\<close>
  values; \<^verbatim>\<open>nbits_total * nsamples_per_bit + 0.5\<close> is a \<^verbatim>\<open>float\<close> product and a
  \<^verbatim>\<open>double\<close> sum, and \<^verbatim>\<open>fabs(throughput_skew) * 100.0\<close> a \<^verbatim>\<open>double\<close> product.
\<close>

definition report_no_carrier ::
  "fsk_plan \<Rightarrow> u32 \<Rightarrow> cfloat \<Rightarrow> cfloat \<Rightarrow> u32 \<Rightarrow> u64 \<Rightarrow> cfloat \<Rightarrow> message" where
  "report_no_carrier plan rate data_rate per_bit nframes nsamples conf_total =
     (let nbits_total = u32_to_u64 (nframes * (n_data_bits plan + 2));
          throughput_rate =
            div32 (u64_to_float (nbits_total * u32_to_u64 rate)) (u64_to_float nsamples)
      in NOCARRIER nframes (div32 conf_total (u32_to_float nframes)) throughput_rate
           (if float_to_u64 (add64 (mul32 (u64_to_float nbits_total) per_bit) (Finite (1 / 2)))
                 = nsamples
            then Rate_perfect
            else (let throughput_skew = div32 (sub32 throughput_rate data_rate) data_rate
                  in Rate_skew (mul64 (fabs throughput_skew) (Finite 100))
                       (if signbit throughput_skew then ''slow'' else ''fast''))))"

section \<open>The receiver: one turn of the main loop\<close>

text \<open>Lines 759--775: the samples in \<^verbatim>\<open>samplebuf\<close> are shifted by \<open>advance\<close>.\<close>

definition rx_shift :: "rx_config \<Rightarrow> 'd rx_state \<Rightarrow> 'd rx_state ctl" where
  "rx_shift cfg st =
     (if \<not> u32_to_u64 (advance st) \<le> samplebuf_size cfg then Abort
      else
        (let st1 = (if u32_to_u64 (advance st) = samplebuf_size cfg
                    then st \<lparr> samples_nvalid := 0,
                              samples_readptr := 0,
                              read_nsamples := samplebuf_size cfg,
                              advance := 0 \<rparr>
                    else st)
         in if advance st1 \<noteq> 0 then
              (if u32_to_u64 (advance st1) > samples_nvalid st1 then Break st1
               else Proceed (st1 \<lparr>
                      samples_nvalid := samples_nvalid st1 - u32_to_u64 (advance st1),
                      samples_readptr := samplebuf_size cfg - u32_to_u64 (advance st1),
                      read_nsamples := u32_to_u64 (advance st1) \<rparr>))
            else Proceed st1))"

text \<open>Lines 777--793: more samples are read; \<open>r\<close> is what \<^verbatim>\<open>simpleaudio_read\<close>
  returns.\<close>

definition rx_read :: "rx_config \<Rightarrow> int \<Rightarrow> 'd rx_state \<Rightarrow> 'd rx_state ctl" where
  "rx_read cfg r st =
     (if \<not> read_nsamples st > 0 then Abort
      else if \<not> samples_nvalid st + read_nsamples st \<le> samplebuf_size cfg then Abort
      else if r < 0 then
        Break (st \<lparr> stderr := stderr st @ [Simpleaudio_read_error], ret := - 1 \<rparr>)
      else
        (let st1 = (if r > 0 then st \<lparr> samples_nvalid := samples_nvalid st + word_of_int r \<rparr>
                    else st)
         in if samples_nvalid st1 = 0 then Break st1 else Proceed st1))"

text \<open>
  Lines 802--809: the scan for a carrier,
  \<^verbatim>\<open>for ( i=0; i+nsamples_per_scan<=samples_nvalid; i+=nsamples_per_scan )\<close>, from
  \<open>i\<close> on; the sum, the comparison and the increment are made in \<^verbatim>\<open>float\<close>.  The
  result is \<open>i\<close> and \<open>carrier_band\<close> when the loop is left.  Where \<open>i\<close> does not
  grow the C loop does not end (the detector sees the same window again), which is the
  value \<open>None\<close>.
\<close>

function scan_carrier ::
  "(u32 \<Rightarrow> int) \<Rightarrow> cfloat \<Rightarrow> u64 \<Rightarrow> u32 \<Rightarrow> int \<Rightarrow> (u32 \<times> int) option" where
  "scan_carrier detect nsamples_per_scan nvalid i band =
     (if add32 (u32_to_float i) nsamples_per_scan \<le> u64_to_float nvalid then
        (let band' = detect i
         in if band' \<ge> 0 then Some (i, band')
            else
              (let i' = float_to_u32 (add32 (u32_to_float i) nsamples_per_scan)
               in if unat i < unat i'
                  then scan_carrier detect nsamples_per_scan nvalid i' band'
                  else None))
      else Some (i, band))"
  by pat_completeness auto
termination
proof (relation "measure (\<lambda>(detect, nsamples_per_scan, nvalid, i, band). 2 ^ 32 - unat i)")
  show "wf (measure (\<lambda>(detect :: u32 \<Rightarrow> int, nsamples_per_scan :: cfloat, nvalid :: u64,
                       i :: u32, band :: int). 2 ^ 32 - unat i))"
    by simp
next
  fix detect :: "u32 \<Rightarrow> int" and nsamples_per_scan :: cfloat and nvalid :: u64
    and i i' :: u32 and band band' :: int
  assume "unat i < unat i'"
  moreover have "unat i' < 2 ^ 32"
    using unsigned_less [of i'] by simp
  ultimately show "((detect, nsamples_per_scan, nvalid, i', band'),
                    (detect, nsamples_per_scan, nvalid, i, band))
      \<in> measure (\<lambda>(detect, nsamples_per_scan, nvalid, i, band). 2 ^ 32 - unat i)"
    by simp
qed

declare scan_carrier.simps [simp del]

text \<open>Lines 795--833: the carrier frequency is auto-detected.  The band shift is
  \<^verbatim>\<open>- (float)(autodetect_shift + fskp->band_width/2.0) / fskp->band_width\<close>: a
  \<^verbatim>\<open>double\<close> quotient and sum, rounded to \<^verbatim>\<open>float\<close>, negated, and divided in
  \<^verbatim>\<open>float\<close>.\<close>

definition rx_autodetect ::
  "rx_config \<Rightarrow> (u32 \<Rightarrow> int) \<Rightarrow> 'd rx_state \<Rightarrow> 'd rx_state ctl" where
  "rx_autodetect cfg detect st =
     (if 0 < carrier_autodetect_threshold cfg \<and> carrier_band st < 0 then
        (let nsamples_per_scan =
               (if int_to_float (fftsize (fskp st)) < nsamples_per_bit cfg
                then int_to_float (fftsize (fskp st)) else nsamples_per_bit cfg)
         in case scan_carrier detect nsamples_per_scan (samples_nvalid st) 0 (carrier_band st) of
              None \<Rightarrow> Hang
            | Some (i, band) \<Rightarrow>
                (let adv = float_to_u32 (add32 (u32_to_float i) nsamples_per_scan);
                     adv' = (if u32_to_u64 adv > samples_nvalid st
                             then u64_to_u32 (samples_nvalid st) else adv);
                     st1 = st \<lparr> carrier_band := band, advance := adv' \<rparr>
                 in if band < 0 then Continue st1
                    else
                      (let b_shift =
                             float_to_int
                               (div32
                                  (fp_neg (double_to_float
                                     (add64 (int_to_double (autodetect_shift cfg))
                                        (div64 (band_width (fskp st1)) (Finite 2)))))
                                  (band_width (fskp st1)))
                       in if band + b_shift < 1
                          then Continue (st1 \<lparr> carrier_band := - 1 \<rparr>)
                          else Proceed (st1 \<lparr> fskp :=
                                 fsk_set_tones_by_bandshift (fskp st1) band b_shift \<rparr>))))
      else Proceed st)"

text \<open>Lines 842--887: the arguments of the frame search; the three sample counts are
  \<^verbatim>\<open>float\<close> expressions converted to \<^verbatim>\<open>unsigned int\<close>.\<close>

definition rx_find_frame_args :: "rx_config \<Rightarrow> 'd rx_state \<Rightarrow> find_frame_args" where
  "rx_find_frame_args cfg st =
     \<lparr> frame_nsamples =
         float_to_u32 (mul32 (nsamples_per_bit cfg) (u32_to_float (n_frame_bits (fskp st)))),
       try_first_sample = (if carrier st then nsamples_overscan cfg else 0),
       try_max_nsamples =
         float_to_u32 (add32 (nsamples_per_bit cfg) (u32_to_float (nsamples_overscan cfg))),
       try_step_nsamples =
         (let n = float_to_u32 (div32 (nsamples_per_bit cfg) (int_to_float 10))
          in if n = 0 then 1 else n),
       try_confidence_search_limit =
         (if carrier st then fsk_confidence_search_limit cfg else INFINITY) \<rparr>"

text \<open>Lines 889--893: the framing bits are chopped off.\<close>

definition chop_framing_bits :: "fsk_plan \<Rightarrow> u32 \<Rightarrow> u32" where
  "chop_framing_bits plan bits =
     (if n_data_bits plan = 5 then drop_bit 2 bits AND 0x1F
      else drop_bit 2 bits AND 0xFF)"

definition FSK_MAX_NOCONFIDENCE_BITS :: u32 where
  "FSK_MAX_NOCONFIDENCE_BITS = 20"

text \<open>Lines 897--921: the frame found has no confidence.\<close>

definition rx_no_confidence :: "rx_config \<Rightarrow> 'd rx_state \<Rightarrow> 'd rx_state" where
  "rx_no_confidence cfg st =
     (let st1 = st \<lparr> noconfidence := noconfidence st + 1 \<rparr>;
          st2 =
            (if noconfidence st1 > FSK_MAX_NOCONFIDENCE_BITS then
               (let st3 = st1 \<lparr> carrier_band := - 1 \<rparr>
                in if carrier st3 then
                     (let st4 = (if \<not> quiet_mode cfg
                                 then st3 \<lparr> stderr := stderr st3 @
                                   [report_no_carrier (fskp st3) (sample_rate cfg)
                                      (bfsk_data_rate cfg) (nsamples_per_bit cfg)
                                      (nframes_decoded st3) (carrier_nsamples st3)
                                      (confidence_total st3)] \<rparr>
                                 else st3)
                      in st4 \<lparr> carrier := False,
                               carrier_nsamples := 0,
                               confidence_total := 0,
                               nframes_decoded := 0 \<rparr>)
                   else st3)
             else st1)
      in st2 \<lparr> advance := try_max_nsamples (rx_find_frame_args cfg st) \<rparr>)"

text \<open>Lines 987--994: \<^verbatim>\<open>isprint(c) || isspace(c) ? c : '.'\<close> in the C locale.\<close>

definition printable_char :: "u8 \<Rightarrow> u8" where
  "printable_char c =
     (if (0x20 \<le> c \<and> c \<le> 0x7E) \<or> (0x09 \<le> c \<and> c \<le> 0x0D) then c else 0x2E)"

text \<open>
  Lines 923--963: the frame found is accepted.  The sample count grows by the
  \<^verbatim>\<open>float\<close> product \<^verbatim>\<open>nsamples_per_bit * (fskp->n_data_bits + 2)\<close>, added in
  \<^verbatim>\<open>float\<close> to the count converted to \<^verbatim>\<open>float\<close>; the confidence is added in
  \<^verbatim>\<open>float\<close>; the advance is a \<^verbatim>\<open>float\<close> sum and difference, converted to
  \<^verbatim>\<open>unsigned int\<close>.
\<close>

definition rx_accept_frame ::
  "rx_config \<Rightarrow> 'd framebits_decoder \<Rightarrow> cfloat \<Rightarrow> u32 \<Rightarrow> 'd rx_state \<Rightarrow> 'd rx_state" where
  "rx_accept_frame cfg dec confidence frame_start_sample st =
     (let frame_bits = u32_to_float (n_data_bits (fskp st) + 2);
          st1 = st \<lparr> carrier_nsamples :=
                  float_to_u64 (add32 (u64_to_float (carrier_nsamples st))
                                  (mul32 (nsamples_per_bit cfg) frame_bits)) \<rparr>;
          st2 =
            (if carrier st1 then
               st1 \<lparr> carrier_nsamples :=
                 carrier_nsamples st1 + u32_to_u64 frame_start_sample
                   - u32_to_u64 (nsamples_overscan cfg) \<rparr>
             else
               (let st3 = (if \<not> quiet_mode cfg then
                             st1 \<lparr> stderr := stderr st1 @
                               [CARRIER
                                  (if int_to_float 100 \<le> bfsk_data_rate cfg
                                   then Rate_rounded
                                          (float_to_u32 (add64 (bfsk_data_rate cfg) (Finite (1 / 2))))
                                   else Rate_exact (bfsk_data_rate cfg))
                                  (mul32 (u32_to_float (b_mark (fskp st1)))
                                     (band_width (fskp st1)))] \<rparr>
                           else st1)
                in st3 \<lparr> carrier := True,
                         decoder_state := decode_reset dec (decoder_state st3) \<rparr>))
      in st2 \<lparr> confidence_total := add32 (confidence_total st2) confidence,
               nframes_decoded := nframes_decoded st2 + 1,
               noconfidence := 0,
               advance :=
                 float_to_u32
                   (sub32 (add32 (u32_to_float frame_start_sample)
                             (mul32 (nsamples_per_bit cfg) frame_bits))
                      (u32_to_float (nsamples_overscan cfg))) \<rparr>)"

text \<open>Lines 971--994: the data bits go to the framebits decoder and the bytes decoded
  are printed.\<close>

definition rx_decode_frame ::
  "'d framebits_decoder \<Rightarrow> u32 \<Rightarrow> 'd rx_state \<Rightarrow> 'd rx_state ctl" where
  "rx_decode_frame dec bits st =
     (case decode_frame dec (decoder_state st) 4096 bits of
        None \<Rightarrow> Abort
      | Some (dataoutbuf, d) \<Rightarrow>
          Continue (st \<lparr> decoder_state := d,
                         stdout := stdout st @ map printable_char dataoutbuf \<rparr>))"

text \<open>Lines 842--994: the frame search and what follows from its confidence; the test
  is \<^verbatim>\<open>confidence <= fsk_confidence_threshold\<close>.\<close>

definition rx_scan ::
  "rx_config \<Rightarrow> 'd framebits_decoder \<Rightarrow> (find_frame_args \<Rightarrow> cfloat \<times> u32 \<times> u32)
     \<Rightarrow> 'd rx_state \<Rightarrow> 'd rx_state ctl" where
  "rx_scan cfg dec locate st =
     (let args = rx_find_frame_args cfg st
      in if samples_nvalid st < u32_to_u64 (frame_nsamples args) then Break st
         else
           (case locate args of (confidence, bits, frame_start_sample) \<Rightarrow>
              if confidence \<le> fsk_confidence_threshold cfg
              then Continue (rx_no_confidence cfg st)
              else rx_decode_frame dec (chop_framing_bits (fskp st) bits)
                     (rx_accept_frame cfg dec confidence frame_start_sample st)))"

text \<open>The part of a turn before the frame search, and the whole turn.\<close>

definition rx_prepare :: "rx_config \<Rightarrow> rx_input \<Rightarrow> 'd rx_state \<Rightarrow> 'd rx_state ctl" where
  "rx_prepare cfg inp st =
     (case rx_shift cfg st of
        Proceed st1 \<Rightarrow>
          (case rx_read cfg (simpleaudio_read inp) st1 of
             Proceed st2 \<Rightarrow> rx_autodetect cfg (fsk_detect_carrier inp) st2
           | r \<Rightarrow> r)
      | r \<Rightarrow> r)"

definition rx_iteration ::
  "rx_config \<Rightarrow> 'd framebits_decoder \<Rightarrow> rx_input \<Rightarrow> 'd rx_state \<Rightarrow> 'd rx_state ctl" where
  "rx_iteration cfg dec inp st =
     (case rx_prepare cfg inp st of
        Proceed st1 \<Rightarrow> rx_scan cfg dec (fsk_find_frame inp) st1
      | r \<Rightarrow> r)"

section \<open>The receiver: the main loop and the end of main\<close>

text \<open>
  The loop \<^verbatim>\<open>while ( 1 )\<close> runs on the answers of the audio backend and the FSK module,
  one \<open>rx_input\<close> per turn.  \<open>Continue st\<close> says that the loop is still running in
  state \<open>st\<close> when the answers given are used up.
\<close>

fun rx_loop ::
  "rx_config \<Rightarrow> 'd framebits_decoder \<Rightarrow> rx_input list \<Rightarrow> 'd rx_state \<Rightarrow> 'd rx_state ctl" where
  "rx_loop cfg dec [] st = Continue st"
| "rx_loop cfg dec (inp # inps) st =
     (case rx_iteration cfg dec inp st of
        Continue st' \<Rightarrow> rx_loop cfg dec inps st'
      | r \<Rightarrow> r)"

text \<open>Lines 998--1009: after the loop.\<close>

definition rx_finish :: "rx_config \<Rightarrow> 'd rx_state \<Rightarrow> 'd rx_state" where
  "rx_finish cfg st =
     (if carrier st \<and> \<not> quiet_mode cfg
      then st \<lparr> stderr := stderr st @
             [report_no_carrier (fskp st) (sample_rate cfg) (bfsk_data_rate cfg)
                (nsamples_per_bit cfg) (nframes_decoded st) (carrier_nsamples st)
                (confidence_total st)] \<rparr>
      else st)"

text \<open>The receive mode of \<^verbatim>\<open>main\<close>, from the sanitized settings on: the value
  returned and the two output streams, when the loop is left.\<close>

definition main_receive ::
  "rx_config \<Rightarrow> fsk_plan \<Rightarrow> 'd framebits_decoder \<Rightarrow> 'd \<Rightarrow> rx_input list
     \<Rightarrow> (int \<times> u8 list \<times> message list) option" where
  "main_receive cfg0 plan dec d inps =
     (let cfg = sanitize_search_limit cfg0
      in case rx_loop cfg dec inps (rx_init cfg plan d) of
           Break st \<Rightarrow>
             (let st' = rx_finish cfg st in Some (ret st', stdout st', stderr st'))
         | _ \<Rightarrow> None)"

section \<open>Definitions that follow the specification's words\<close>







text \<open>The buffer capacity of the specification: \<open>ceil(R / data_rate) * (F + 2)\<close> with
  \<open>F = D + 2\<close>, over the real numbers.\<close>

definition spec_samplebuf_size :: "rx_config \<Rightarrow> fsk_plan \<Rightarrow> nat" where
  "spec_samplebuf_size cfg plan =
     nat \<lceil>real (unat (sample_rate cfg)) / fval (bfsk_data_rate cfg)\<rceil>
       * ((unat (n_data_bits plan) + 2) + 2)"

text \<open>The number of bits \<open>nframes_decoded * (D + 2)\<close> of the NOCARRIER report, over
  the natural numbers.\<close>

definition spec_nbits_total :: "fsk_plan \<Rightarrow> u32 \<Rightarrow> nat" where
  "spec_nbits_total plan nframes = unat nframes * (unat (n_data_bits plan) + 2)"

text \<open>The test for \<open>(rate perfect)\<close> as the specification states it, over the real
  numbers: \<open>round (nbits_total * nsamples_per_bit)\<close> equals \<open>carrier_nsamples\<close>.\<close>

definition spec_rate_perfect :: "fsk_plan \<Rightarrow> cfloat \<Rightarrow> u32 \<Rightarrow> u64 \<Rightarrow> bool" where
  "spec_rate_perfect plan per_bit nframes nsamples \<longleftrightarrow>
     round (real (spec_nbits_total plan nframes) * fval per_bit) = int (unat nsamples)"

text \<open>The same quantities in the arithmetic of the program: the throughput
  \<open>nbits_total * sample_rate / carrier_nsamples\<close> as a \<^verbatim>\<open>float\<close> quotient, and the
  test for \<open>(rate perfect)\<close> with the \<^verbatim>\<open>float\<close> product
  \<open>nbits_total * nsamples_per_bit\<close>, one half added and the sum truncated.\<close>

definition float_throughput :: "fsk_plan \<Rightarrow> u32 \<Rightarrow> u32 \<Rightarrow> u64 \<Rightarrow> cfloat" where
  "float_throughput plan rate nframes nsamples =
     div32 (rnd32 (real (spec_nbits_total plan nframes * unat rate))) (rnd32 (real (unat nsamples)))"

definition float_rate_perfect :: "fsk_plan \<Rightarrow> cfloat \<Rightarrow> u32 \<Rightarrow> u64 \<Rightarrow> bool" where
  "float_rate_perfect plan per_bit nframes nsamples \<longleftrightarrow>
     float_to_u64 (add64 (mul32 (rnd32 (real (spec_nbits_total plan nframes))) per_bit)
                     (Finite (1 / 2)))
       = nsamples"

text \<open>The rate note of a NOCARRIER report.\<close>

fun message_rate_note :: "message \<Rightarrow> rate_note option" where
  "message_rate_note (NOCARRIER n c t note) = Some note"
| "message_rate_note (CARRIER r f) = None"
| "message_rate_note Simpleaudio_read_error = None"

text \<open>The carrier-state invariant of the specification.\<close>

definition carrier_invariant :: "'d rx_state \<Rightarrow> bool" where
  "carrier_invariant st \<longleftrightarrow>
     (0 < nframes_decoded st \<longrightarrow> carrier st)
     \<and> (\<not> carrier st \<longrightarrow> confidence_total st = 0 \<and> carrier_nsamples st = 0)"

section \<open>Predicates on receiver states\<close>

text \<open>The carrier statistics, the decoder and the decoded output are the same in two
  states.\<close>

definition same_carrier_stats :: "'d rx_state \<Rightarrow> 'd rx_state \<Rightarrow> bool" where
  "same_carrier_stats st st' \<longleftrightarrow>
     carrier st' = carrier st \<and> confidence_total st' = confidence_total st
     \<and> nframes_decoded st' = nframes_decoded st \<and> carrier_nsamples st' = carrier_nsamples st
     \<and> noconfidence st' = noconfidence st \<and> decoder_state st' = decoder_state st
     \<and> stdout st' = stdout st \<and> n_data_bits (fskp st') = n_data_bits (fskp st)"

text \<open>As \<open>same_carrier_stats\<close>, but for the run counter.\<close>

definition same_carrier_totals :: "'d rx_state \<Rightarrow> 'd rx_state \<Rightarrow> bool" where
  "same_carrier_totals st st' \<longleftrightarrow>
     carrier st' = carrier st \<and> confidence_total st' = confidence_total st
     \<and> nframes_decoded st' = nframes_decoded st \<and> carrier_nsamples st' = carrier_nsamples st
     \<and> decoder_state st' = decoder_state st
     \<and> stdout st' = stdout st \<and> n_data_bits (fskp st') = n_data_bits (fskp st)"

text \<open>The NOCARRIER report on the carrier statistics of a state.\<close>

definition carrier_report :: "rx_config \<Rightarrow> 'd rx_state \<Rightarrow> message" where
  "carrier_report cfg st =
     report_no_carrier (fskp st) (sample_rate cfg) (bfsk_data_rate cfg) (nsamples_per_bit cfg)
       (nframes_decoded st) (carrier_nsamples st) (confidence_total st)"

text \<open>The sample count of the carrier after a frame is accepted in state \<open>st\<close>
  (lines 923--930): the count and the \<^verbatim>\<open>float\<close> product
  \<open>nsamples_per_bit * (n_data_bits + 2)\<close> are added in \<^verbatim>\<open>float\<close> and the sum is
  truncated; with carrier, the frame start is added and the overscan subtracted.\<close>

definition accepted_nsamples :: "rx_config \<Rightarrow> u32 \<Rightarrow> 'd rx_state \<Rightarrow> u64" where
  "accepted_nsamples cfg frame_start_sample st =
     (let n = float_to_u64 (add32 (u64_to_float (carrier_nsamples st))
                (mul32 (nsamples_per_bit cfg) (u32_to_float (n_data_bits (fskp st) + 2))))
      in if carrier st
         then n + u32_to_u64 frame_start_sample - u32_to_u64 (nsamples_overscan cfg)
         else n)"

text \<open>Every turn of a run is a frame search whose confidence is not above the
  threshold: the turn gets as far as the frame search, the buffer holds a frame's
  worth of samples, and the confidence found is low.\<close>

fun low_confidence_run :: "rx_config \<Rightarrow> rx_input list \<Rightarrow> 'd rx_state \<Rightarrow> bool" where
  "low_confidence_run cfg [] st = True"
| "low_confidence_run cfg (inp # inps) st =
     (case rx_prepare cfg inp st of
        Proceed s \<Rightarrow>
          \<not> samples_nvalid s < u32_to_u64 (frame_nsamples (rx_find_frame_args cfg s))
          \<and> fst (fsk_find_frame inp (rx_find_frame_args cfg s)) \<le> fsk_confidence_threshold cfg
          \<and> low_confidence_run cfg inps (rx_no_confidence cfg s)
      | _ \<Rightarrow> False)"

text \<open>The state \<open>s\<close> after \<open>n\<close> low-confidence turns from a state \<open>st\<close>
  with carrier.\<close>

definition run_result :: "rx_config \<Rightarrow> 'd rx_state \<Rightarrow> nat \<Rightarrow> 'd rx_state \<Rightarrow> bool" where
  "run_result cfg st n s \<longleftrightarrow>
     (if unat (noconfidence st) + n \<le> 20
      then same_carrier_totals st s
           \<and> unat (noconfidence s) = unat (noconfidence st) + n
           \<and> stderr s = stderr st
      else \<not> carrier s \<and> confidence_total s = 0 \<and> carrier_nsamples s = 0
           \<and> nframes_decoded s = 0
           \<and> stderr s = stderr st @ (if quiet_mode cfg then [] else [carrier_report cfg st]))"

section \<open>Example settings\<close>

text \<open>The default settings at 300 bps (Bell 103, 8 data bits) and for RTTY (45.45 bps,
  5 data bits), at 48000 samples per second.  The search limit \<^verbatim>\<open>2.3f\<close> is the
  \<^verbatim>\<open>float\<close> \<open>9646899 / 2^22\<close> and the RTTY rate \<^verbatim>\<open>45.45\<close>, stored in a
  \<^verbatim>\<open>float\<close>, is \<open>11914445 / 2^18\<close>.\<close>

definition cfg_300 :: rx_config where
  "cfg_300 = \<lparr> sample_rate = 48000, bfsk_data_rate = Finite 300,
               fsk_confidence_threshold = Finite 2,
               fsk_confidence_search_limit = Finite (9646899 / 4194304),
               carrier_autodetect_threshold = Finite 0,
               autodetect_shift = 200, quiet_mode = False \<rparr>"

definition plan_300 :: fsk_plan where
  "plan_300 = \<lparr> n_data_bits = 8, n_frame_bits = 11, fftsize = 1024, band_width = Finite 50,
                b_mark = 25, b_space = 21 \<rparr>"

definition cfg_rtty :: rx_config where
  "cfg_rtty = \<lparr> sample_rate = 48000, bfsk_data_rate = Finite (11914445 / 262144),
                fsk_confidence_threshold = Finite 2,
                fsk_confidence_search_limit = Finite (9646899 / 4194304),
                carrier_autodetect_threshold = Finite 0,
                autodetect_shift = 170, quiet_mode = False \<rparr>"

definition plan_rtty :: fsk_plan where
  "plan_rtty = \<lparr> n_data_bits = 5, n_frame_bits = 8, fftsize = 8192, band_width = Finite 10,
                 b_mark = 158, b_space = 141 \<rparr>"

text \<open>The 300 bps settings with the options \<^verbatim>\<open>-c nan\<close> and \<^verbatim>\<open>--limit nan\<close>
  (\<^verbatim>\<open>atof\<close> reads \<^verbatim>\<open>nan\<close> as a NaN), and with the data rate \<^verbatim>\<open>332.41\<close>, which as a
  \<^verbatim>\<open>float\<close> is \<open>10892411 / 2^15\<close>.\<close>

definition cfg_nan_threshold :: rx_config where
  "cfg_nan_threshold = cfg_300 \<lparr> fsk_confidence_threshold := NaN \<rparr>"

definition cfg_nan_limit :: rx_config where
  "cfg_nan_limit = cfg_300 \<lparr> fsk_confidence_search_limit := NaN \<rparr>"

definition cfg_332 :: rx_config where
  "cfg_332 = cfg_300 \<lparr> bfsk_data_rate := Finite (10892411 / 32768) \<rparr>"

text \<open>A state of the 300 bps receiver with a full sample buffer and no carrier yet.\<close>

definition st_300 :: "unit rx_state" where
  "st_300 = (rx_init cfg_300 plan_300 ()) \<lparr> samples_nvalid := 2080 \<rparr>"

text \<open>A frame locator that finds the character \<open>A\<close> (prev_stop 1, start 0, data
  \<open>0x41\<close>, stop 1) with confidence 3 at sample 80.\<close>

definition find_A :: "find_frame_args \<Rightarrow> cfloat \<times> u32 \<times> u32" where
  "find_A args = (Finite 3, 0x505, 80)"

text \<open>A frame locator that finds nothing: confidence 0.\<close>

definition find_none :: "find_frame_args \<Rightarrow> cfloat \<times> u32 \<times> u32" where
  "find_none args = (Finite 0, 0, 0)"

text \<open>The answers of one turn in which \<open>r\<close> samples are read and the frame locator
  finds \<open>A\<close>, or finds nothing; no carrier is auto-detected.\<close>

definition turn_A :: "int \<Rightarrow> rx_input" where
  "turn_A r = \<lparr> simpleaudio_read = r, fsk_detect_carrier = (\<lambda>i. - 1), fsk_find_frame = find_A \<rparr>"

definition turn_none :: "int \<Rightarrow> rx_input" where
  "turn_none r =
     \<lparr> simpleaudio_read = r, fsk_detect_carrier = (\<lambda>i. - 1), fsk_find_frame = find_none \<rparr>"

text \<open>The state of the 300 bps receiver after its first turn has found \<open>A\<close>, and
  the state 20 low-confidence turns later.\<close>

definition st_A :: "unit rx_state" where
  "st_A = \<lparr> fskp = plan_300, samples_readptr = 0, read_nsamples = 2080, samples_nvalid = 2080,
     ret = 0, carrier = True, confidence_total = Finite 3, nframes_decoded = 1,
     carrier_nsamples = 1600, noconfidence = 0, advance = 1600,
     carrier_band = - 1, decoder_state = (), stdout = [0x41],
     stderr = [CARRIER (Rate_rounded 300) (Finite 1250)] \<rparr>"

definition st_20 :: "unit rx_state" where
  "st_20 = st_A \<lparr> samples_readptr := 1840, read_nsamples := 240, noconfidence := 20,
                  advance := 240 \<rparr>"

text \<open>Further states of the example receiver: after a first turn that finds nothing,
  after the carrier is lost again, and \<open>st_A\<close> with its samples shifted.\<close>

definition st_none :: "unit rx_state" where
  "st_none = st_300 \<lparr> noconfidence := 1, advance := 240 \<rparr>"

definition st_lost :: "unit rx_state" where
  "st_lost = st_20 \<lparr> carrier := False, confidence_total := 0, nframes_decoded := 0,
     carrier_nsamples := 0, noconfidence := 21,
     stderr := [CARRIER (Rate_rounded 300) (Finite 1250),
                NOCARRIER 1 (Finite 3) (Finite 300) Rate_perfect] \<rparr>"

definition st_A_shifted :: "unit rx_state" where
  "st_A_shifted = st_A \<lparr> samples_nvalid := 480, samples_readptr := 480, read_nsamples := 1600 \<rparr>"

text \<open>The state of the receiver run with \<^verbatim>\<open>-c nan\<close> after a first turn in which the
  frame locator finds nothing (confidence 0, bits 0): the frame is accepted and a dot
  is printed.\<close>

definition st_dot :: "unit rx_state" where
  "st_dot = \<lparr> fskp = plan_300, samples_readptr = 0, read_nsamples = 2080, samples_nvalid = 2080,
     ret = 0, carrier = True, confidence_total = Finite 0, nframes_decoded = 1,
     carrier_nsamples = 1600, noconfidence = 0, advance = 1520,
     carrier_band = - 1, decoder_state = (), stdout = [0x2E],
     stderr = [CARRIER (Rate_rounded 300) (Finite 1250)] \<rparr>"

text \<open>The receiver at 332.41 bps with a full sample buffer and no carrier yet, and a
  turn in which the frame locator finds \<open>A\<close> with confidence 3 at sample 72.\<close>

definition st_332 :: "unit rx_state" where
  "st_332 = (rx_init cfg_332 plan_300 ()) \<lparr> samples_nvalid := 1885 \<rparr>"

definition find_72 :: "find_frame_args \<Rightarrow> cfloat \<times> u32 \<times> u32" where
  "find_72 args = (Finite 3, 0x505, 72)"

definition turn_72 :: "int \<Rightarrow> rx_input" where
  "turn_72 r = \<lparr> simpleaudio_read = r, fsk_detect_carrier = (\<lambda>i. - 1), fsk_find_frame = find_72 \<rparr>"


section \<open>Rounding and the floating-point operations\<close>

lemma round_half_even_of_int [simp]: "round_half_even (of_int j) = j"
  by (simp add: round_half_even_def)

lemma floor_log2_eq:
  assumes "0 < x" "2 powi e \<le> x" "x < 2 powi (e + 1)"
  shows "\<lfloor>log 2 x\<rfloor> = e"
proof -
  have "2 powr (real_of_int e) = (2::real) powi e"
    by (simp add: powr_real_of_int')
  moreover have "2 powr (real_of_int (e + 1)) = (2::real) powi (e + 1)"
    by (rule powr_real_of_int') simp_all
  then have "2 powr (real_of_int e + 1) = (2::real) powi (e + 1)" by simp
  ultimately show ?thesis using assms by (simp only: floor_log_eq_powr_iff) simp
qed

lemma fp_round_exact:
  assumes x: "x = of_int m * 2 powi k" and m: "m \<noteq> 0" "\<bar>m\<bar> < 2 ^ p"
    and k: "qmin \<le> k" and big: "\<bar>x\<bar> < 2 ^ emax"
  shows "fp_round p qmin emax x = Finite x"
proof -
  have x0: "x \<noteq> 0" using x m by simp
  have ax: "\<bar>x\<bar> = of_int \<bar>m\<bar> * 2 powi k" using x by (simp add: abs_mult)
  define e where "e = \<lfloor>log 2 \<bar>x\<bar>\<rfloor>"
  define q where "q = max (e - int p + 1) qmin"
  have "2 powr (real_of_int e) \<le> \<bar>x\<bar>"
    using x0 floor_log_eq_powr_iff [of "\<bar>x\<bar>" 2 e] by (simp add: e_def)
  then have "2 powi e \<le> \<bar>x\<bar>" by (simp add: powr_real_of_int')
  also have "\<bar>x\<bar> < 2 ^ p * 2 powi k"
  proof -
    have "real_of_int \<bar>m\<bar> < 2 ^ p" using m(2) by (metis of_int_less_numeral_power_cancel_iff)
    then show ?thesis unfolding ax by (simp add: mult_strict_right_mono)
  qed
  also have "\<dots> = 2 powi (int p + k)" by (simp add: power_int_add)
  finally have lt: "(2::real) powi e < 2 powi (int p + k)" .
  have "e < int p + k"
  proof (rule ccontr)
    assume "\<not> e < int p + k"
    then have "(2::real) powi (int p + k) \<le> 2 powi e"
      by (intro power_int_increasing) simp_all
    with lt show False by simp
  qed
  then have qk: "q \<le> k" using k by (simp add: q_def)
  define j where "j = \<bar>m\<bar> * 2 ^ nat (k - q)"
  have "(2::real) powi k = 2 powi (k - q) * 2 powi q"
    by (simp add: power_int_add [symmetric])
  also have "(2::real) powi (k - q) = 2 ^ nat (k - q)"
    using qk by (simp add: power_int_def)
  finally have pk: "(2::real) powi k = 2 ^ nat (k - q) * 2 powi q" .
  have quot: "\<bar>x\<bar> / 2 powi q = of_int j"
    unfolding ax pk j_def by simp
  have prod: "of_int j * 2 powi q = \<bar>x\<bar>"
    unfolding ax pk j_def by simp
  have j0: "j \<noteq> 0" using m(1) by (simp add: j_def)
  show ?thesis
    using x0 big j0
    unfolding fp_round_def Let_def e_def [symmetric] q_def [symmetric] quot
      round_half_even_of_int prod
    by (simp add: abs_if)
qed

lemma round_half_even_nonneg: "0 \<le> y \<Longrightarrow> 0 \<le> round_half_even y"
  by (simp add: round_half_even_def Let_def)

lemma fp_round_sign:
  assumes "x \<noteq> 0"
  shows "signbit (fp_round p qmin emax x) = (x < 0) \<and> fp_round p qmin emax x \<noteq> NaN"
proof -
  define q where "q = max (\<lfloor>log 2 \<bar>x\<bar>\<rfloor> - int p + 1) qmin"
  define n where "n = round_half_even (\<bar>x\<bar> / 2 powi q)"
  have n0: "0 \<le> n" unfolding n_def by (rule round_half_even_nonneg) simp
  have pos: "0 < (2::real) powi q" by simp
  have r: "n \<noteq> 0 \<Longrightarrow> 0 < of_int n * (2::real) powi q"
    using n0 pos by (simp add: zero_less_mult_iff)
  show ?thesis
    using assms r
    unfolding fp_round_def Let_def q_def [symmetric] n_def [symmetric]
    by auto
qed

lemma fp_round_eval:
  assumes "0 < x" "2 powi e \<le> x" "x < 2 powi (e + 1)"
  shows "fp_round p qmin emax x =
     (let q = max (e - int p + 1) qmin;
          n = round_half_even (x / 2 powi q);
          r = of_int n * 2 powi q
      in if 2 ^ emax \<le> r then Plus_infinity else if n = 0 then Finite 0 else Finite r)"
proof -
  have "\<lfloor>log 2 \<bar>x\<bar>\<rfloor> = e" using floor_log2_eq [OF assms] assms(1) by simp
  then show ?thesis using assms(1) by (simp add: fp_round_def Let_def)
qed

lemma rnd32_int:
  assumes "\<bar>m\<bar> < 2 ^ 24"
  shows "rnd32 (of_int m) = Finite (of_int m)"
proof (cases "m = 0")
  case True
  then show ?thesis by (simp add: rnd32_def fp_round_def)
next
  case False
  have "\<bar>real_of_int m\<bar> < 2 ^ 24" using assms by (metis of_int_abs of_int_less_numeral_power_cancel_iff)
  then have "\<bar>real_of_int m\<bar> < 2 ^ 128" by (rule less_trans) simp
  with False assms show ?thesis
    unfolding rnd32_def by (intro fp_round_exact [where m = m and k = 0]) simp_all
qed

lemma rnd64_int:
  assumes "\<bar>m\<bar> < 2 ^ 53"
  shows "rnd64 (of_int m) = Finite (of_int m)"
proof (cases "m = 0")
  case True
  then show ?thesis by (simp add: rnd64_def fp_round_def)
next
  case False
  have "\<bar>real_of_int m\<bar> < 2 ^ 53" using assms by (metis of_int_abs of_int_less_numeral_power_cancel_iff)
  then have "\<bar>real_of_int m\<bar> < 2 ^ 1024" by (rule less_trans) simp
  with False assms show ?thesis
    unfolding rnd64_def by (intro fp_round_exact [where m = m and k = 0]) simp_all
qed

lemma rnd64_half:
  assumes "\<bar>m\<bar> < 2 ^ 53"
  shows "rnd64 (of_int m / 2) = Finite (of_int m / 2)"
proof (cases "m = 0")
  case True
  then show ?thesis by (simp add: rnd64_def fp_round_def)
next
  case False
  have "\<bar>real_of_int m\<bar> < 2 ^ 53" using assms by (metis of_int_abs of_int_less_numeral_power_cancel_iff)
  then have "\<bar>real_of_int m / 2\<bar> < 2 ^ 1024" by simp
  with False assms show ?thesis
    unfolding rnd64_def by (intro fp_round_exact [where m = m and k = "- 1"]) simp_all
qed

lemma rnd32_numeral: "numeral n < (2::int) ^ 24 \<Longrightarrow> rnd32 (numeral n) = Finite (numeral n)"
  using rnd32_int [of "numeral n"] by simp

lemma rnd64_numeral: "numeral n < (2::int) ^ 53 \<Longrightarrow> rnd64 (numeral n) = Finite (numeral n)"
  using rnd64_int [of "numeral n"] by simp

lemma rnd64_numeral_half:
  "numeral n < (2::int) ^ 53 \<Longrightarrow> rnd64 (numeral n / 2) = Finite (numeral n / 2)"
  using rnd64_half [of "numeral n"] by simp

lemma rnd_0_1: "rnd32 0 = Finite 0" "rnd32 1 = Finite 1" "rnd64 0 = Finite 0" "rnd64 1 = Finite 1"
  using rnd32_int [of 0] rnd32_int [of 1] rnd64_int [of 0] rnd64_int [of 1] by simp_all

lemma cfloat_less_not_le: "a < b \<Longrightarrow> \<not> b \<le> a" for a b :: cfloat
  by (auto simp: less_eq_cfloat_def less_cfloat_def)

lemma cfloat_not_le_iff: "a \<noteq> NaN \<Longrightarrow> b \<noteq> NaN \<Longrightarrow> (\<not> a \<le> b) = (b < a)" for a b :: cfloat
  by (auto simp: less_eq_cfloat_def less_cfloat_def)

lemma cfloat_not_less_iff: "a \<noteq> NaN \<Longrightarrow> b \<noteq> NaN \<Longrightarrow> (\<not> a < b) = (b \<le> a)" for a b :: cfloat
  by (auto simp: less_eq_cfloat_def less_cfloat_def)

lemma cfloat_NaN_compare:
  "\<not> NaN \<le> a" "\<not> a \<le> NaN" "\<not> NaN < a" "\<not> a < NaN" for a :: cfloat
  by (simp_all add: less_eq_cfloat_def less_cfloat_def)

lemma rnd32_dyadic:
  assumes "\<bar>m\<bar> < 2 ^ 24" "k \<le> 149"
  shows "rnd32 (of_int m / 2 ^ k) = Finite (of_int m / 2 ^ k)"
proof (cases "m = 0")
  case True
  then show ?thesis by (simp add: rnd32_def fp_round_def)
next
  case False
  have e: "real_of_int m / 2 ^ k = of_int m * 2 powi (- int k)"
    by (simp add: power_int_minus field_simps)
  have "\<bar>real_of_int m\<bar> < 2 ^ 24" using assms(1) by (metis of_int_abs of_int_less_numeral_power_cancel_iff)
  moreover have "\<bar>real_of_int m\<bar> / 2 ^ k \<le> \<bar>real_of_int m\<bar>"
    by (simp add: field_simps mult_le_cancel_left1)
  ultimately have "\<bar>real_of_int m / 2 ^ k\<bar> < 2 ^ 128" by simp
  with False assms show ?thesis
    unfolding rnd32_def by (intro fp_round_exact [where m = m and k = "- int k"]) (simp_all add: e)
qed

lemma rnd64_dyadic:
  assumes "\<bar>m\<bar> < 2 ^ 53" "k \<le> 1074"
  shows "rnd64 (of_int m / 2 ^ k) = Finite (of_int m / 2 ^ k)"
proof (cases "m = 0")
  case True
  then show ?thesis by (simp add: rnd64_def fp_round_def)
next
  case False
  have e: "real_of_int m / 2 ^ k = of_int m * 2 powi (- int k)"
    by (simp add: power_int_minus field_simps)
  have "\<bar>real_of_int m\<bar> < 2 ^ 53" using assms(1) by (metis of_int_abs of_int_less_numeral_power_cancel_iff)
  moreover have "\<bar>real_of_int m\<bar> / 2 ^ k \<le> \<bar>real_of_int m\<bar>"
    by (simp add: field_simps mult_le_cancel_left1)
  ultimately have "\<bar>real_of_int m / 2 ^ k\<bar> < 2 ^ 1024" by simp
  with False assms show ?thesis
    unfolding rnd64_def by (intro fp_round_exact [where m = m and k = "- int k"]) (simp_all add: e)
qed

lemma round_half_even_ge_floor: "\<lfloor>y\<rfloor> \<le> round_half_even y"
  by (simp add: round_half_even_def Let_def)

lemma round_half_even_le: "real_of_int (round_half_even y) \<le> y + 1"
proof -
  have "round_half_even y \<le> \<lfloor>y\<rfloor> + 1" by (simp add: round_half_even_def Let_def)
  then have "real_of_int (round_half_even y) \<le> real_of_int (\<lfloor>y\<rfloor> + 1)" by (simp only: of_int_le_iff)
  also have "\<dots> \<le> y + 1" by simp
  finally show ?thesis .
qed

lemma fp_round_ge_1:
  assumes x: "1 \<le> x" and big: "2 * x < 2 ^ emax" and p: "0 < p" and qmin: "qmin \<le> 0"
  shows "\<exists>r. fp_round p qmin emax x = Finite r \<and> 1 \<le> r"
proof -
  define e where "e = \<lfloor>log 2 x\<rfloor>"
  define q where "q = max (e - int p + 1) qmin"
  define n where "n = round_half_even (x / 2 powi q)"
  have x0: "0 < x" using x by simp
  have "0 \<le> log 2 x" using x by simp
  then have e0: "0 \<le> e" by (simp add: e_def)
  have "2 powr (real_of_int e) \<le> x"
    using x0 floor_log_eq_powr_iff [of x 2 e] by (simp add: e_def)
  then have le: "2 powi e \<le> x" by (simp add: powr_real_of_int')
  have qe: "q \<le> e" using p qmin e0 by (simp add: q_def)
  have split: "(2::real) powi e = 2 ^ nat (e - q) * 2 powi q"
  proof -
    have "(2::real) powi e = 2 powi (e - q) * 2 powi q" by (simp add: power_int_add [symmetric])
    also have "(2::real) powi (e - q) = 2 ^ nat (e - q)" using qe by (simp add: power_int_def)
    finally show ?thesis .
  qed
  have pq: "0 < (2::real) powi q" by simp
  have "2 ^ nat (e - q) * 2 powi q \<le> x" using le split by simp
  then have "2 ^ nat (e - q) \<le> x / 2 powi q" using pq by (simp add: pos_le_divide_eq)
  then have "real_of_int (2 ^ nat (e - q)) \<le> x / 2 powi q" by simp
  then have "2 ^ nat (e - q) \<le> \<lfloor>x / 2 powi q\<rfloor>" by (simp only: le_floor_iff)
  also have "\<dots> \<le> n" unfolding n_def by (rule round_half_even_ge_floor)
  finally have n_lower: "2 ^ nat (e - q) \<le> n" .
  then have "real_of_int (2 ^ nat (e - q)) \<le> real_of_int n" by (simp only: of_int_le_iff)
  then have "2 ^ nat (e - q) * 2 powi q \<le> real_of_int n * 2 powi q"
    using pq by simp
  then have r_lower: "2 powi e \<le> real_of_int n * 2 powi q" using split by simp
  have "(1::real) \<le> 2 powi e" using e0 by (simp add: one_le_power_int)
  with r_lower have r1: "1 \<le> real_of_int n * 2 powi q" by simp
  have "(1::int) \<le> 2 ^ nat (e - q)" by simp
  with n_lower have n0: "n \<noteq> 0" by linarith
  have "real_of_int n \<le> x / 2 powi q + 1" unfolding n_def by (rule round_half_even_le)
  then have "real_of_int n * 2 powi q \<le> (x / 2 powi q + 1) * 2 powi q"
    using pq by (simp only: mult_le_cancel_right_pos)
  also have "\<dots> = x + 2 powi q" by (simp add: field_simps)
  also have "\<dots> \<le> x + 2 powi e" using qe by (simp add: power_int_increasing)
  also have "\<dots> \<le> 2 * x" using le by simp
  finally have "real_of_int n * 2 powi q < 2 ^ emax" using big by simp
  then show ?thesis
    using x0 n0 r1
    unfolding fp_round_def Let_def
    by (simp add: e_def [symmetric] q_def [symmetric] n_def [symmetric])
qed

lemma fp_round_pos:
  assumes "0 < x"
  shows "fp_round p qmin emax x = Plus_infinity \<or> (\<exists>r. fp_round p qmin emax x = Finite r \<and> 0 \<le> r)"
proof -
  from assms have "x \<noteq> 0" by simp
  from fp_round_sign [OF this, of p qmin emax] assms
  show ?thesis by (cases "fp_round p qmin emax x") simp_all
qed

lemma signbit_div32:
  assumes "a \<noteq> NaN" and "0 < r"
  shows "signbit (div32 a (Finite r)) = signbit a"
proof (cases a)
  case (Finite x)
  show ?thesis
  proof (cases "x = 0")
    case True
    with Finite assms(2) show ?thesis
      by (simp add: div32_def fp_div_def isinf_def iszero_def signed_zero_def)
  next
    case False
    with assms(2) have "x / r \<noteq> 0" by simp
    from fp_round_sign [OF this, of 24 "- 149" 128] assms(2)
    have "signbit (rnd32 (x / r)) = (x < 0)" by (simp add: rnd32_def divide_less_0_iff)
    with Finite False assms(2) show ?thesis
      by (simp add: div32_def fp_div_def isinf_def iszero_def)
  qed
qed (use assms in \<open>simp_all add: div32_def fp_div_def isinf_def iszero_def signed_zero_def
       signed_infinity_def\<close>)

lemma signbit_sub32:
  assumes "0 < r"
  shows "signbit (sub32 (Finite t) (Finite r)) = (t < r) \<and> sub32 (Finite t) (Finite r) \<noteq> NaN"
proof (cases "t - r = 0")
  case True
  with assms show ?thesis
    by (simp add: sub32_def fp_sub_def fp_add_def isinf_def)
next
  case False
  from fp_round_sign [OF this, of 24 "- 149" 128]
  have "signbit (rnd32 (t - r)) = (t < r) \<and> rnd32 (t - r) \<noteq> NaN" by (simp add: rnd32_def)
  with False assms show ?thesis
    by (simp add: sub32_def fp_sub_def fp_add_def isinf_def)
qed

lemma skew_sign:
  assumes "T = Plus_infinity \<or> (\<exists>t. T = Finite t)" and "0 < r"
  shows "signbit (div32 (sub32 T (Finite r)) (Finite r)) = (T < Finite r)"
proof -
  from assms(1) show ?thesis
  proof
    assume "T = Plus_infinity"
    with assms(2) show ?thesis
      by (simp add: sub32_def fp_sub_def fp_add_def div32_def fp_div_def isinf_def
            signed_infinity_def less_cfloat_def)
  next
    assume "\<exists>t. T = Finite t"
    then obtain t where T: "T = Finite t" by blast
    from signbit_sub32 [OF assms(2), of t] signbit_div32 [OF _ assms(2), of "sub32 (Finite t) (Finite r)"]
    show ?thesis unfolding T by (simp add: less_cfloat_def)
  qed
qed

lemma rnd32_eval:
  assumes "0 < x" "2 powi e \<le> x" "x < 2 powi (e + 1)" "- 126 \<le> e" "e < 127"
  shows "rnd32 x = Finite (of_int (round_half_even (x / 2 powi (e - 23))) * 2 powi (e - 23))"
proof -
  define n where "n = round_half_even (x / 2 powi (e - 23))"
  have q: "max (e - int 24 + 1) (- 149) = e - 23" using assms(4) by simp
  have pq: "0 < (2::real) powi (e - 23)" by simp
  have split: "(2::real) powi e = 2 ^ 23 * 2 powi (e - 23)"
    by (simp add: power_int_diff)
  have "2 ^ 23 * 2 powi (e - 23) \<le> x" using assms(2) split by simp
  then have "2 ^ 23 \<le> x / 2 powi (e - 23)" using pq by (simp add: pos_le_divide_eq)
  then have "real_of_int (2 ^ 23) \<le> x / 2 powi (e - 23)" by simp
  then have "2 ^ 23 \<le> \<lfloor>x / 2 powi (e - 23)\<rfloor>" by (simp only: le_floor_iff)
  also have "\<dots> \<le> n" unfolding n_def by (rule round_half_even_ge_floor)
  finally have n_lower: "2 ^ 23 \<le> n" .
  then have n0: "n \<noteq> 0" by simp
  have "real_of_int n \<le> x / 2 powi (e - 23) + 1" unfolding n_def by (rule round_half_even_le)
  then have "real_of_int n * 2 powi (e - 23) \<le> (x / 2 powi (e - 23) + 1) * 2 powi (e - 23)"
    using pq by (simp only: mult_le_cancel_right_pos)
  also have "\<dots> = x + 2 powi (e - 23)" by (simp add: field_simps)
  also have "\<dots> \<le> x + 2 powi e" by (simp add: power_int_increasing)
  also have "\<dots> \<le> 2 * x" using assms(2) by simp
  also have "\<dots> < 2 * 2 powi (e + 1)" using assms(3) by simp
  also have "\<dots> = 2 powi (e + 2)" by (simp add: power_int_add)
  also have "\<dots> \<le> 2 powi 128" using assms(5) by (intro power_int_increasing) simp_all
  finally have small: "\<not> 2 ^ 128 \<le> real_of_int n * 2 powi (e - 23)" by simp
  have "rnd32 x =
     (if 2 ^ 128 \<le> real_of_int n * 2 powi (e - 23) then Plus_infinity
      else if n = 0 then Finite 0 else Finite (real_of_int n * 2 powi (e - 23)))"
    unfolding rnd32_def fp_round_eval [OF assms(1-3)] Let_def q n_def by (rule refl)
  also have "\<dots> = Finite (real_of_int n * 2 powi (e - 23))"
    using small n0 by (simp only: if_False)
  finally show ?thesis unfolding n_def .
qed

section \<open>Conversions\<close>

lemma c_trunc_of_int: "c_trunc (real_of_int k) = k"
  by (simp add: c_trunc_def)

lemma unat_word_of_int_64:
  "0 \<le> k \<Longrightarrow> k < 2 ^ 64 \<Longrightarrow> unat (word_of_int k :: u64) = nat k"
proof -
  assume a: "0 \<le> k" "k < 2 ^ 64"
  have "uint (word_of_int k :: u64) = k mod 2 ^ 64"
    by (simp only: uint_word_of_int len_bit0 len_num1) simp
  also have "\<dots> = k" using a by (rule mod_pos_pos_trivial)
  finally show ?thesis by (simp only: unat_eq_nat_uint)
qed


text \<open>The definitions and rounding facts that evaluate floating-point expressions on
  numbers that the formats hold exactly.\<close>

lemmas float_eval = add32_def sub32_def mul32_def div32_def add64_def mul64_def div64_def
  fp_add_def fp_sub_def fp_mul_def fp_div_def isinf_def iszero_def signed_zero_def
  signed_infinity_def less_eq_cfloat_def less_cfloat_def zero_cfloat_def
  int_to_float_def int_to_double_def u32_to_float_def u64_to_float_def double_to_float_def
  float_to_int_def float_to_u32_def float_to_u64_def c_trunc_def
  rnd32_numeral rnd64_numeral rnd64_numeral_half rnd_0_1

section \<open>The transmitter emits the frames of the specification\<close>
















section \<open>The formats at work\<close>

text \<open>The \<^verbatim>\<open>float\<close> nearest to some decimal constants, among them those of the
  example settings; a tie goes to the even significand; beyond the largest number
  the result is an infinity, and half the smallest number is rounded to zero.\<close>

lemma rnd32_constants:
  "rnd32 (1 / 10) = Finite (13421773 / 134217728)"
  "rnd32 (23 / 10) = Finite (9646899 / 4194304)"
  "rnd32 (909 / 20) = Finite (11914445 / 262144)"
  "rnd32 (33241 / 100) = Finite (10892411 / 32768)"
  by (simp_all add: rnd32_eval [where e = "- 4"] rnd32_eval [where e = 1]
        rnd32_eval [where e = 5] rnd32_eval [where e = 8] round_half_even_def power_int_minus)

lemma rnd32_ties:
  "rnd32 16777217 = Finite 16777216" "rnd32 16777219 = Finite 16777220"
  by (simp_all add: rnd32_eval [where e = 24] round_half_even_def)

lemma rnd32_limits:
  "rnd32 (2 ^ 128) = Plus_infinity" "rnd32 (1 / 2 ^ 150) = Finite 0"
  "rnd32 (1 / 2 ^ 149) = Finite (1 / 2 ^ 149)"
proof -
  show "rnd32 (2 ^ 128) = Plus_infinity"
    unfolding rnd32_def
    by (subst fp_round_eval [where e = 128]) (simp_all add: round_half_even_def Let_def)
  show "rnd32 (1 / 2 ^ 150) = Finite 0"
    unfolding rnd32_def
    by (subst fp_round_eval [where e = "- 150"])
       (simp_all add: round_half_even_def Let_def power_int_minus field_simps)
  show "rnd32 (1 / 2 ^ 149) = Finite (1 / 2 ^ 149)"
    using rnd32_dyadic [of 1 149] by simp
qed

lemma special_values:
  "div32 (Finite 1) (Finite 0) = Plus_infinity" "div32 (Finite 1) Minus_zero = Minus_infinity"
  "div32 (Finite 0) (Finite 0) = NaN" "sub32 Plus_infinity Plus_infinity = NaN"
  "mul32 (Finite 0) Plus_infinity = NaN" "add32 Minus_zero Minus_zero = Minus_zero"
  "add32 (Finite 1) (fp_neg (Finite 1)) = Finite 0"
  "\<not> NaN \<le> (NaN :: cfloat)" "Minus_zero \<le> Finite 0" "\<not> Minus_zero < Finite 0"
  by (simp_all add: div32_def sub32_def mul32_def add32_def fp_div_def fp_sub_def fp_mul_def
        fp_add_def isinf_def iszero_def signed_zero_def signed_infinity_def less_eq_cfloat_def
        less_cfloat_def)

section \<open>The example settings, evaluated\<close>

lemma cfg_300_simps:
  "sample_rate cfg_300 = 48000" "bfsk_data_rate cfg_300 = Finite 300"
  "fsk_confidence_threshold cfg_300 = Finite 2"
  "fsk_confidence_search_limit cfg_300 = Finite (9646899 / 4194304)"
  "carrier_autodetect_threshold cfg_300 = Finite 0" "quiet_mode cfg_300 = False"
  by (simp_all add: cfg_300_def)

lemma st_300_simps:
  "fskp st_300 = plan_300" "samples_nvalid st_300 = 2080" "carrier st_300 = False"
  by (simp_all add: st_300_def rx_init_def)

lemma npb_300: "nsamples_per_bit cfg_300 = Finite 160"
  by (simp add: nsamples_per_bit_def cfg_300_def float_eval)

lemma npb_rtty: "nsamples_per_bit cfg_rtty = Finite (8651617 / 8192)"
  by (simp add: nsamples_per_bit_def cfg_rtty_def float_eval rnd32_eval [where e = 10]
        round_half_even_def power_int_minus)

lemma npb_332: "nsamples_per_bit cfg_332 = Finite (4731699 / 32768)"
  by (simp add: nsamples_per_bit_def cfg_332_def cfg_300_def float_eval rnd32_eval [where e = 7]
        round_half_even_def power_int_minus)

lemma overscan_300: "nsamples_overscan cfg_300 = 80"
  by (simp add: nsamples_overscan_def npb_300 fsk_frame_overscan_def float_eval Let_def)

lemma args_300:
  "rx_find_frame_args cfg_300 st_300 =
     \<lparr> frame_nsamples = 1760, try_first_sample = 0, try_max_nsamples = 240,
       try_step_nsamples = 16, try_confidence_search_limit = INFINITY \<rparr>"
  by (simp add: rx_find_frame_args_def npb_300 overscan_300 st_300_simps plan_300_def float_eval
        Let_def)

section \<open>The framing bits are chopped off before decoding\<close>





section \<open>The size of the sample buffer\<close>

text \<open>
  Claim C4, as stated, fails: the buffer does not hold \<open>ceil(R / data_rate) * (F + 2)\<close>
  samples with \<open>F = n_data_bits + 2\<close>.  At 48000 samples per second, the 300 bps
  receiver with 8 data bits allocates 2080 samples (13 bit widths of 160 samples), not
  1920 (12 bit widths), and the RTTY receiver with 5 data bits allocates 13741 samples
  (13 bit widths of 1057 samples), not 9513 (9 bit widths).
\<close>

theorem samplebuf_size_not_frame_bits_plus_2:
  "unat (samplebuf_size cfg_300) = 2080 \<and> spec_samplebuf_size cfg_300 plan_300 = 1920
   \<and> unat (samplebuf_size cfg_rtty) = 13741 \<and> spec_samplebuf_size cfg_rtty plan_rtty = 9513"
proof (intro conjI)
  show "unat (samplebuf_size cfg_300) = 2080"
    by (simp add: samplebuf_size_def npb_300 float_eval)
  show "spec_samplebuf_size cfg_300 plan_300 = 1920"
    by (simp add: spec_samplebuf_size_def cfg_300_def plan_300_def)
  show "unat (samplebuf_size cfg_rtty) = 13741"
    by (simp add: samplebuf_size_def npb_rtty float_eval)
  show "spec_samplebuf_size cfg_rtty plan_rtty = 9513"
    by (simp add: spec_samplebuf_size_def cfg_rtty_def plan_rtty_def)
qed

text \<open>
  Claim C4, amended.  The sample buffer is allocated with capacity
  \<open>ceil(nsamples_per_bit) * 13\<close> samples, where \<open>nsamples_per_bit\<close> is the
  \<^verbatim>\<open>float\<close> quotient \<open>sample_rate / data_rate\<close> and 13 is the constant \<open>12 + 1\<close> of
  the code, whatever the number of data bits is: 13 bit widths for 8-bit and for 5-bit
  data alike.  This holds for a positive bit width whose 13-fold is below \<open>2^24\<close>,
  where the \<^verbatim>\<open>float\<close> product is exact.
\<close>

theorem samplebuf_size_13_bit_widths:
  assumes "nsamples_per_bit cfg = Finite x" and "0 < x" and "\<lceil>x\<rceil> * 13 < 2 ^ 24"
  shows "unat (samplebuf_size cfg) = nat \<lceil>x\<rceil> * 13"
proof -
  let ?c = "\<lceil>x\<rceil>"
  have pos: "0 < ?c" using assms(2) by simp
  then have ceil: "ceilf (Finite x) = Finite (of_int ?c)" by simp
  have thirteen: "int_to_float (12 + 1) = Finite 13"
    by (simp add: int_to_float_def rnd32_numeral)
  have "\<bar>?c * 13\<bar> < 2 ^ 24" using pos assms(3) by simp
  from rnd32_int [OF this]
  have "rnd32 (real_of_int ?c * 13) = Finite (real_of_int (?c * 13))" by simp
  then have "mul32 (Finite (of_int ?c)) (Finite 13) = Finite (real_of_int (?c * 13))"
    using pos by (simp add: mul32_def fp_mul_def isinf_def signed_zero_def)
  then have "samplebuf_size cfg = word_of_int (?c * 13)"
    unfolding samplebuf_size_def assms(1) ceil thirteen
    by (simp only: float_to_u64_def float_to_int_def fval.simps c_trunc_of_int)
  moreover have "0 \<le> ?c * 13" "?c * 13 < 2 ^ 64" using pos assms(3) by simp_all
  ultimately have "unat (samplebuf_size cfg) = nat (?c * 13)"
    by (simp only: unat_word_of_int_64)
  also have "\<dots> = nat ?c * 13" using pos by (simp add: nat_mult_distrib)
  finally show ?thesis .
qed

text \<open>The theorem at work: 13 bit widths of 160 samples at 300 bps, and 13 bit widths
  of 1057 samples for RTTY, whose bit width is \<open>8651617 / 8192 = 1056.1056\<close>
  samples.\<close>

theorem samplebuf_size_13_bit_widths_witness:
  "unat (samplebuf_size cfg_300) = 160 * 13 \<and> unat (samplebuf_size cfg_rtty) = 1057 * 13"
  using samplebuf_size_13_bit_widths [OF npb_300] samplebuf_size_13_bit_widths [OF npb_rtty]
  by simp

section \<open>The confidence search limit is sanitized\<close>

text \<open>
  Claim C10, as stated, fails for a configuration with a NaN: with \<^verbatim>\<open>--limit nan\<close>
  the test \<^verbatim>\<open>limit < threshold\<close> of line 629 is false, the limit stays NaN, is what
  the frame search is given once the carrier is acquired, and is not at least the
  threshold; with \<^verbatim>\<open>-c nan\<close> the limit stays 2.3 and is not at least the threshold
  either.
\<close>

theorem search_limit_not_sanitized_with_nan:
  "fsk_confidence_search_limit (sanitize_search_limit cfg_nan_limit) = NaN
   \<and> try_confidence_search_limit (rx_find_frame_args (sanitize_search_limit cfg_nan_limit) st_A)
       = NaN
   \<and> \<not> fsk_confidence_threshold (sanitize_search_limit cfg_nan_limit)
         \<le> fsk_confidence_search_limit (sanitize_search_limit cfg_nan_limit)
   \<and> fsk_confidence_search_limit (sanitize_search_limit cfg_nan_threshold)
       = Finite (9646899 / 4194304)
   \<and> \<not> fsk_confidence_threshold (sanitize_search_limit cfg_nan_threshold)
         \<le> fsk_confidence_search_limit (sanitize_search_limit cfg_nan_threshold)"
  by (simp add: sanitize_search_limit_def cfg_nan_limit_def cfg_nan_threshold_def cfg_300_def
        rx_find_frame_args_def st_A_def cfloat_NaN_compare)

text \<open>
  Claim C10, amended.  For every configuration whose confidence search limit and
  confidence threshold are not NaN: before the receive loop starts, the limit is
  raised to the threshold when it is below it, and left alone otherwise; the
  threshold is unchanged.  So the limit the frame search is given once the carrier is
  acquired is at least the acceptance threshold (without carrier the limit is
  infinite).
\<close>

theorem search_limit_sanitized:
  assumes "fsk_confidence_search_limit cfg \<noteq> NaN" and "fsk_confidence_threshold cfg \<noteq> NaN"
  shows "fsk_confidence_search_limit (sanitize_search_limit cfg)
           = (if fsk_confidence_search_limit cfg < fsk_confidence_threshold cfg
              then fsk_confidence_threshold cfg else fsk_confidence_search_limit cfg)
   \<and> fsk_confidence_threshold (sanitize_search_limit cfg) = fsk_confidence_threshold cfg
   \<and> fsk_confidence_threshold (sanitize_search_limit cfg)
       \<le> fsk_confidence_search_limit (sanitize_search_limit cfg)
   \<and> try_confidence_search_limit (rx_find_frame_args (sanitize_search_limit cfg) st)
       = (if carrier st then fsk_confidence_search_limit (sanitize_search_limit cfg)
          else INFINITY)
   \<and> fsk_confidence_threshold (sanitize_search_limit cfg)
       \<le> try_confidence_search_limit (rx_find_frame_args (sanitize_search_limit cfg) st)"
proof -
  let ?l = "fsk_confidence_search_limit cfg" and ?t = "fsk_confidence_threshold cfg"
  have refl_t: "?t \<le> ?t" using assms(2) by (auto simp: less_eq_cfloat_def)
  have inf_t: "?t \<le> INFINITY" using assms(2) by (simp add: less_eq_cfloat_def)
  have "\<not> ?l < ?t \<Longrightarrow> ?t \<le> ?l" using assms by (simp add: cfloat_not_less_iff)
  with refl_t inf_t show ?thesis
    by (simp add: sanitize_search_limit_def rx_find_frame_args_def)
qed

text \<open>The theorem at work: the default limit 2.3 stays with the default threshold 2,
  and is raised with the threshold 3.\<close>

theorem search_limit_sanitized_witness:
  "fsk_confidence_search_limit (sanitize_search_limit cfg_300) = Finite (9646899 / 4194304)
   \<and> fsk_confidence_search_limit
       (sanitize_search_limit (cfg_300 \<lparr> fsk_confidence_threshold := Finite 3 \<rparr>)) = Finite 3
   \<and> try_confidence_search_limit
       (rx_find_frame_args
          (sanitize_search_limit (cfg_300 \<lparr> fsk_confidence_threshold := Finite 3 \<rparr>)) st_A)
       = Finite 3"
  using search_limit_sanitized [of cfg_300 st_A]
    search_limit_sanitized [of "cfg_300 \<lparr> fsk_confidence_threshold := Finite 3 \<rparr>" st_A]
  by (simp add: cfg_300_def st_A_def less_cfloat_def)

section \<open>What the sections before the frame search leave alone\<close>

lemma rx_shift_keeps:
  "rx_shift cfg st = Proceed s \<or> rx_shift cfg st = Break s \<Longrightarrow>
   same_carrier_stats st s \<and> stderr s = stderr st \<and> ret s = ret st"
  by (auto simp: rx_shift_def same_carrier_stats_def Let_def split: if_splits)

lemma rx_shift_results:
  "rx_shift cfg st \<noteq> Continue s" "rx_shift cfg st \<noteq> Hang"
  by (auto simp: rx_shift_def Let_def split: if_splits)

lemma rx_read_keeps:
  "rx_read cfg r st = Proceed s \<or> rx_read cfg r st = Break s \<Longrightarrow> same_carrier_stats st s"
  by (auto simp: rx_read_def same_carrier_stats_def Let_def split: if_splits)

lemma rx_read_Proceed:
  "rx_read cfg r st = Proceed s \<Longrightarrow> stderr s = stderr st \<and> ret s = ret st"
  by (auto simp: rx_read_def Let_def split: if_splits)

lemma rx_read_results:
  "rx_read cfg r st \<noteq> Continue s" "rx_read cfg r st \<noteq> Hang"
  by (auto simp: rx_read_def Let_def split: if_splits)

lemma rx_autodetect_keeps:
  "rx_autodetect cfg detect st = Proceed s \<or> rx_autodetect cfg detect st = Continue s \<Longrightarrow>
   same_carrier_stats st s \<and> stderr s = stderr st \<and> ret s = ret st"
  by (auto simp: rx_autodetect_def same_carrier_stats_def Let_def fsk_set_tones_by_bandshift_def
      split: if_splits option.splits prod.splits)

lemma rx_autodetect_results:
  "rx_autodetect cfg detect st \<noteq> Break s" "rx_autodetect cfg detect st \<noteq> Abort"
  by (auto simp: rx_autodetect_def Let_def split: if_splits option.splits prod.splits)

lemma same_carrier_stats_trans:
  "same_carrier_stats a b \<Longrightarrow> same_carrier_stats b c \<Longrightarrow> same_carrier_stats a c"
  by (simp add: same_carrier_stats_def)

lemma rx_prepare_cases:
  obtains (shift_break) s where "rx_shift cfg st = Break s" "rx_prepare cfg inp st = Break s"
  | (shift_abort) "rx_shift cfg st = Abort" "rx_prepare cfg inp st = Abort"
  | (read_break) s1 s where "rx_shift cfg st = Proceed s1"
      "rx_read cfg (simpleaudio_read inp) s1 = Break s" "rx_prepare cfg inp st = Break s"
  | (read_abort) s1 where "rx_shift cfg st = Proceed s1"
      "rx_read cfg (simpleaudio_read inp) s1 = Abort" "rx_prepare cfg inp st = Abort"
  | (autodetect) s1 s2 where "rx_shift cfg st = Proceed s1"
      "rx_read cfg (simpleaudio_read inp) s1 = Proceed s2"
      "rx_prepare cfg inp st = rx_autodetect cfg (fsk_detect_carrier inp) s2"
proof (cases "rx_shift cfg st")
  case (Proceed s1)
  note shift = this
  show ?thesis
  proof (cases "rx_read cfg (simpleaudio_read inp) s1")
    case (Proceed s2)
    with shift autodetect show ?thesis by (simp add: rx_prepare_def)
  next
    case (Continue s) then show ?thesis using rx_read_results(1) by blast
  next
    case (Break s)
    with shift read_break show ?thesis by (simp add: rx_prepare_def)
  next
    case Abort
    with shift read_abort show ?thesis by (simp add: rx_prepare_def)
  next
    case Hang then show ?thesis using rx_read_results(2) by blast
  qed
next
  case (Continue s) then show ?thesis using rx_shift_results(1) by blast
next
  case (Break s) with shift_break show ?thesis by (simp add: rx_prepare_def)
next
  case Abort with shift_abort show ?thesis by (simp add: rx_prepare_def)
next
  case Hang then show ?thesis using rx_shift_results(2) by blast
qed

lemma rx_prepare_keeps:
  assumes "rx_prepare cfg inp st = Proceed s \<or> rx_prepare cfg inp st = Continue s
           \<or> rx_prepare cfg inp st = Break s"
  shows "same_carrier_stats st s"
proof (cases rule: rx_prepare_cases [of cfg st inp])
  case (shift_break s')
  with assms have "s' = s" by simp
  with shift_break show ?thesis using rx_shift_keeps [of cfg st s] by simp
next
  case shift_abort with assms show ?thesis by simp
next
  case (read_break s1 s')
  with assms have "s' = s" by simp
  with read_break show ?thesis
    using rx_shift_keeps [of cfg st s1] rx_read_keeps [of cfg "simpleaudio_read inp" s1 s]
    by (blast intro: same_carrier_stats_trans)
next
  case (read_abort s1) with assms show ?thesis by simp
next
  case (autodetect s1 s2)
  with assms have "rx_autodetect cfg (fsk_detect_carrier inp) s2 = Proceed s
     \<or> rx_autodetect cfg (fsk_detect_carrier inp) s2 = Continue s"
    using rx_autodetect_results(1) [of cfg "fsk_detect_carrier inp" s2 s] by auto
  with autodetect show ?thesis
    using rx_shift_keeps [of cfg st s1] rx_read_keeps [of cfg "simpleaudio_read inp" s1 s2]
      rx_autodetect_keeps [of cfg "fsk_detect_carrier inp" s2 s]
    by (blast intro: same_carrier_stats_trans)
qed

lemma rx_prepare_Proceed:
  assumes "rx_prepare cfg inp st = Proceed s"
  shows "stderr s = stderr st \<and> ret s = ret st"
proof (cases rule: rx_prepare_cases [of cfg st inp])
  case (autodetect s1 s2)
  with assms show ?thesis
    using rx_shift_keeps [of cfg st s1] rx_read_Proceed [of cfg "simpleaudio_read inp" s1 s2]
      rx_autodetect_keeps [of cfg "fsk_detect_carrier inp" s2 s]
    by simp
qed (use assms in simp_all)

section \<open>The carrier-state invariant\<close>

lemma rx_no_confidence_invariant:
  "carrier_invariant st \<Longrightarrow> carrier_invariant (rx_no_confidence cfg st)"
  by (auto simp: carrier_invariant_def rx_no_confidence_def Let_def)

lemma rx_accept_frame_carrier: "carrier (rx_accept_frame cfg dec c start st)"
  by (simp add: rx_accept_frame_def Let_def)

lemma rx_decode_frame_invariant:
  "carrier st \<Longrightarrow> rx_decode_frame dec bits st = Continue s \<or> rx_decode_frame dec bits st = Break s 
    \<Longrightarrow> carrier_invariant s"
  by (auto simp: rx_decode_frame_def carrier_invariant_def split: option.splits)

lemma same_carrier_stats_invariant:
  "same_carrier_stats st s \<Longrightarrow> carrier_invariant st \<Longrightarrow> carrier_invariant s"
  by (simp add: same_carrier_stats_def carrier_invariant_def)

lemma rx_scan_invariant:
  assumes "carrier_invariant st"
    and "rx_scan cfg dec locate st = Continue s \<or> rx_scan cfg dec locate st = Break s"
  shows "carrier_invariant s"
proof (cases "samples_nvalid st < u32_to_u64 (frame_nsamples (rx_find_frame_args cfg st))")
  case True
  with assms show ?thesis by (simp add: rx_scan_def Let_def)
next
  case False
  obtain c bits start where loc: "locate (rx_find_frame_args cfg st) = (c, bits, start)"
    by (cases "locate (rx_find_frame_args cfg st)")
  show ?thesis
  proof (cases "c \<le> fsk_confidence_threshold cfg")
    case True
    with False loc assms(2) have "s = rx_no_confidence cfg st"
      by (simp add: rx_scan_def Let_def)
    with assms(1) show ?thesis by (simp add: rx_no_confidence_invariant)
  next
    case c: False
    with False loc assms(2) have
      "rx_decode_frame dec (chop_framing_bits (fskp st) bits) (rx_accept_frame cfg dec c start st)
         = Continue s
       \<or> rx_decode_frame dec (chop_framing_bits (fskp st) bits) (rx_accept_frame cfg dec c start st)
         = Break s"
      by (simp add: rx_scan_def Let_def)
    then show ?thesis
      using rx_decode_frame_invariant [OF rx_accept_frame_carrier] by blast
  qed
qed

lemma rx_iteration_invariant:
  assumes "carrier_invariant st"
    and "rx_iteration cfg dec inp st = Continue s \<or> rx_iteration cfg dec inp st = Break s"
  shows "carrier_invariant s"
proof (cases "rx_prepare cfg inp st")
  case (Proceed s1)
  then have "carrier_invariant s1"
    using rx_prepare_keeps [of cfg inp st s1] same_carrier_stats_invariant assms(1) by blast
  moreover from Proceed assms(2) have
    "rx_scan cfg dec (fsk_find_frame inp) s1 = Continue s
     \<or> rx_scan cfg dec (fsk_find_frame inp) s1 = Break s"
    by (simp add: rx_iteration_def)
  ultimately show ?thesis by (rule rx_scan_invariant)
next
  case (Continue s')
  with assms(2) have "s' = s" by (simp add: rx_iteration_def)
  with Continue show ?thesis
    using rx_prepare_keeps [of cfg inp st s] same_carrier_stats_invariant assms(1) by blast
next
  case (Break s')
  with assms(2) have "s' = s" by (simp add: rx_iteration_def)
  with Break show ?thesis
    using rx_prepare_keeps [of cfg inp st s] same_carrier_stats_invariant assms(1) by blast
next
  case Abort with assms(2) show ?thesis by (simp add: rx_iteration_def)
next
  case Hang with assms(2) show ?thesis by (simp add: rx_iteration_def)
qed

lemma rx_loop_invariant:
  "carrier_invariant st \<Longrightarrow>
   rx_loop cfg dec inps st = Continue s \<or> rx_loop cfg dec inps st = Break s \<Longrightarrow>
   carrier_invariant s"
proof (induction inps arbitrary: st)
  case Nil
  then show ?case by simp
next
  case (Cons inp inps)
  show ?case
  proof (cases "rx_iteration cfg dec inp st")
    case (Continue s')
    then have "carrier_invariant s'" using rx_iteration_invariant Cons.prems(1) by blast
    moreover from Continue Cons.prems(2) have
      "rx_loop cfg dec inps s' = Continue s \<or> rx_loop cfg dec inps s' = Break s" by simp
    ultimately show ?thesis by (rule Cons.IH)
  next
    case (Break s')
    with Cons.prems(2) have "s' = s" by simp
    with Break show ?thesis using rx_iteration_invariant Cons.prems(1) by blast
  qed (use Cons.prems(2) in simp_all)
qed

lemma rx_init_invariant: "carrier_invariant (rx_init cfg plan d)"
  by (simp add: carrier_invariant_def rx_init_def)

text \<open>
  Claim C5.  After every turn of the receive loop, started in the initial state of
  \<^verbatim>\<open>main\<close> (whether the loop goes on or is left there): if \<open>nframes_decoded > 0\<close>
  then the carrier is acquired, and if the carrier is not acquired then
  \<open>confidence_total\<close>, \<open>carrier_nsamples\<close> and \<open>nframes_decoded\<close> are all zero.
\<close>

theorem carrier_invariant_after_every_iteration:
  assumes "rx_loop cfg dec inps (rx_init cfg plan d) = Continue st
           \<or> rx_loop cfg dec inps (rx_init cfg plan d) = Break st"
  shows "(0 < nframes_decoded st \<longrightarrow> carrier st)
         \<and> (\<not> carrier st \<longrightarrow>
              confidence_total st = 0 \<and> carrier_nsamples st = 0 \<and> nframes_decoded st = 0)"
  using rx_loop_invariant [OF rx_init_invariant assms]
  by (auto simp: carrier_invariant_def word_greater_zero_iff)

section \<open>Loss of carrier\<close>

lemma same_carrier_totals_trans:
  "same_carrier_totals a b \<Longrightarrow> same_carrier_totals b c \<Longrightarrow> same_carrier_totals a c"
  by (simp add: same_carrier_totals_def)

lemma same_carrier_stats_totals:
  "same_carrier_stats st s \<Longrightarrow> same_carrier_totals st s"
  by (simp add: same_carrier_totals_def same_carrier_stats_def)

lemma carrier_report_same:
  "same_carrier_totals st s \<Longrightarrow> carrier_report cfg s = carrier_report cfg st"
  by (simp add: carrier_report_def same_carrier_totals_def report_no_carrier_def)

lemma low_turn:
  assumes "rx_prepare cfg inp st = Proceed s"
    and "\<not> samples_nvalid s < u32_to_u64 (frame_nsamples (rx_find_frame_args cfg s))"
    and "fst (fsk_find_frame inp (rx_find_frame_args cfg s)) \<le> fsk_confidence_threshold cfg"
  shows "rx_iteration cfg dec inp st = Continue (rx_no_confidence cfg s)"
proof (cases "fsk_find_frame inp (rx_find_frame_args cfg s)")
  case (fields c bits start)
  with assms show ?thesis by (simp add: rx_iteration_def rx_scan_def Let_def)
qed

lemma unat_succ_small:
  assumes "unat (k :: u32) \<le> 20"
  shows "unat (k + 1) = unat k + 1"
proof -
  have "unat k + unat (1 :: u32) < 2 ^ LENGTH(32)" using assms by simp
  then have "unat (k + 1) = unat k + unat (1 :: u32)" by (simp only: unat_add_lem)
  then show ?thesis by simp
qed

lemma noconfidence_small:
  assumes "unat (k :: u32) < 20"
  shows "\<not> FSK_MAX_NOCONFIDENCE_BITS < k + 1 \<and> unat (k + 1) = unat k + 1"
proof -
  have s: "unat (k + 1) = unat k + 1" using assms by (simp add: unat_succ_small)
  have "\<not> unat (20 :: u32) < unat (k + 1)" using assms s by simp
  then show ?thesis
    using s unfolding FSK_MAX_NOCONFIDENCE_BITS_def by (simp only: word_less_nat_alt) simp
qed

lemma noconfidence_20:
  assumes "unat (k :: u32) = 20"
  shows "FSK_MAX_NOCONFIDENCE_BITS < k + 1"
proof -
  have s: "unat (k + 1) = unat k + 1" using assms by (simp add: unat_succ_small)
  have "unat (20 :: u32) < unat (k + 1)" using assms s by simp
  then show ?thesis unfolding FSK_MAX_NOCONFIDENCE_BITS_def by (simp only: word_less_nat_alt)
qed

lemma rx_no_confidence_keeps:
  assumes "unat (noconfidence st) < 20"
  shows "same_carrier_totals st (rx_no_confidence cfg st)
    \<and> unat (noconfidence (rx_no_confidence cfg st)) = unat (noconfidence st) + 1
    \<and> stderr (rx_no_confidence cfg st) = stderr st"
proof -
  from noconfidence_small [OF assms]
  have a: "\<not> FSK_MAX_NOCONFIDENCE_BITS < noconfidence st + 1"
    and b: "unat (noconfidence st + 1) = unat (noconfidence st) + 1" by blast+
  have e: "rx_no_confidence cfg st =
    st \<lparr> noconfidence := noconfidence st + 1,
         advance := try_max_nsamples (rx_find_frame_args cfg st) \<rparr>"
    using a by (simp add: rx_no_confidence_def Let_def)
  show ?thesis unfolding e using b by (simp add: same_carrier_totals_def)
qed

lemma rx_no_confidence_resets:
  assumes "unat (noconfidence st) = 20" and "carrier st"
  shows "\<not> carrier (rx_no_confidence cfg st)
    \<and> confidence_total (rx_no_confidence cfg st) = 0
    \<and> carrier_nsamples (rx_no_confidence cfg st) = 0
    \<and> nframes_decoded (rx_no_confidence cfg st) = 0
    \<and> stderr (rx_no_confidence cfg st)
        = stderr st @ (if quiet_mode cfg then [] else [carrier_report cfg st])"
  using noconfidence_20 [OF assms(1)] assms(2)
  by (simp add: rx_no_confidence_def carrier_report_def Let_def)

lemma run_result_shift:
  assumes "run_result cfg s1 n s"
    and "same_carrier_totals st s1" and "stderr s1 = stderr st"
    and "unat (noconfidence s1) = unat (noconfidence st) + 1"
  shows "run_result cfg st (Suc n) s"
proof (cases "unat (noconfidence s1) + n \<le> 20")
  case True
  with assms(1) have "same_carrier_totals s1 s"
    and "unat (noconfidence s) = unat (noconfidence s1) + n" and "stderr s = stderr s1"
    by (simp_all add: run_result_def)
  with assms(2-4) have "same_carrier_totals st s"
    and "unat (noconfidence s) = unat (noconfidence st) + Suc n" and "stderr s = stderr st"
    by (simp_all add: same_carrier_totals_trans [of st s1 s])
  moreover from True assms(4) have "unat (noconfidence st) + Suc n \<le> 20" by simp
  ultimately show ?thesis by (simp only: run_result_def if_True simp_thms)
next
  case False
  with assms(1) have "\<not> carrier s" "confidence_total s = 0" "carrier_nsamples s = 0"
    "nframes_decoded s = 0"
    "stderr s = stderr s1 @ (if quiet_mode cfg then [] else [carrier_report cfg s1])"
    by (simp_all add: run_result_def)
  moreover have "carrier_report cfg s1 = carrier_report cfg st"
    using assms(2) by (rule carrier_report_same)
  moreover from False assms(4) have "\<not> unat (noconfidence st) + Suc n \<le> 20" by simp
  ultimately show ?thesis using assms(3) by (simp only: run_result_def if_False simp_thms)
qed

lemma low_run:
  assumes "carrier st" and "low_confidence_run cfg inps st"
    and "unat (noconfidence st) + length inps \<le> 21" and "unat (noconfidence st) \<le> 20"
  shows "\<exists>s. rx_loop cfg dec inps st = Continue s \<and> run_result cfg st (length inps) s"
  using assms
proof (induction inps arbitrary: st)
  case Nil
  then show ?case by (simp add: run_result_def same_carrier_totals_def)
next
  case (Cons inp inps)
  from Cons.prems(2) obtain s0 where prep: "rx_prepare cfg inp st = Proceed s0"
    by (cases "rx_prepare cfg inp st") simp_all
  with Cons.prems(2) have
    fits: "\<not> samples_nvalid s0 < u32_to_u64 (frame_nsamples (rx_find_frame_args cfg s0))"
    and low: "fst (fsk_find_frame inp (rx_find_frame_args cfg s0)) \<le> fsk_confidence_threshold cfg"
    and rest: "low_confidence_run cfg inps (rx_no_confidence cfg s0)"
    by simp_all
  let ?s1 = "rx_no_confidence cfg s0"
  have turn: "rx_iteration cfg dec inp st = Continue ?s1"
    using prep fits low by (rule low_turn)
  have same0: "same_carrier_stats st s0"
    using rx_prepare_keeps [of cfg inp st s0] prep by simp
  have err0: "stderr s0 = stderr st"
    using rx_prepare_Proceed [OF prep] by simp
  have nc0: "noconfidence s0 = noconfidence st" and car0: "carrier s0"
    using same0 Cons.prems(1) by (simp_all add: same_carrier_stats_def)
  show ?case
  proof (cases "unat (noconfidence st) < 20")
    case True
    then have small: "unat (noconfidence s0) < 20" by (simp add: nc0)
    note keeps = rx_no_confidence_keeps [OF small, of cfg]
    from keeps have nc1: "unat (noconfidence ?s1) = unat (noconfidence st) + 1"
      by (simp add: nc0)
    from keeps car0 have car1: "carrier ?s1" by (simp add: same_carrier_totals_def)
    have len: "unat (noconfidence ?s1) + length inps \<le> 21"
      using nc1 Cons.prems(3) by simp
    have le: "unat (noconfidence ?s1) \<le> 20" using nc1 True by simp
    from Cons.IH [OF car1 rest len le] obtain s where
      loop: "rx_loop cfg dec inps ?s1 = Continue s"
      and res: "run_result cfg ?s1 (length inps) s" by blast
    have tot: "same_carrier_totals st ?s1"
      using same_carrier_stats_totals [OF same0] keeps
      by (blast intro: same_carrier_totals_trans)
    have err1: "stderr ?s1 = stderr st" using keeps err0 by simp
    have "run_result cfg st (Suc (length inps)) s"
      using res tot err1 nc1 by (rule run_result_shift)
    then have "run_result cfg st (length (inp # inps)) s" by simp
    with loop turn show ?thesis by simp
  next
    case False
    with Cons.prems(4) have twenty: "unat (noconfidence st) = 20" by simp
    with Cons.prems(3) have empty: "inps = []" by simp
    from twenty have "unat (noconfidence s0) = 20" by (simp add: nc0)
    note resets = rx_no_confidence_resets [OF this car0, of cfg]
    have "run_result cfg st (length (inp # inps)) ?s1"
      using resets twenty empty err0 carrier_report_same [OF same_carrier_stats_totals [OF same0]]
      by (simp add: run_result_def)
    with turn empty show ?thesis by simp
  qed
qed

lemma rx_decode_frame_noconfidence:
  "rx_decode_frame dec bits st = Continue s \<Longrightarrow> noconfidence s = noconfidence st"
  by (auto simp: rx_decode_frame_def split: option.splits)

lemma rx_accept_frame_noconfidence: "noconfidence (rx_accept_frame cfg dec c start st) = 0"
  by (simp add: rx_accept_frame_def Let_def)

lemma accepted_clears_noconfidence:
  assumes "rx_scan cfg dec locate st = Continue s"
    and "\<not> samples_nvalid st < u32_to_u64 (frame_nsamples (rx_find_frame_args cfg st))"
    and "fsk_confidence_threshold cfg < fst (locate (rx_find_frame_args cfg st))"
  shows "noconfidence s = 0"
proof (cases "locate (rx_find_frame_args cfg st)")
  case (fields c bits start)
  with assms have
    "rx_decode_frame dec (chop_framing_bits (fskp st) bits) (rx_accept_frame cfg dec c start st)
       = Continue s"
    using cfloat_less_not_le [OF assms(3)] by (simp add: rx_scan_def Let_def)
  then show ?thesis
    using rx_decode_frame_noconfidence rx_accept_frame_noconfidence by metis
qed

text \<open>
  Claim C1, amended.  From a state with carrier in which the run counter is zero (as
  every accepted frame leaves it), a run of up to 20 consecutive low-confidence frame
  searches keeps the carrier and writes no report; the 21st consecutive one (the run
  counter then exceeds \<open>FSK_MAX_NOCONFIDENCE_BITS = 20\<close>) resets the carrier state to
  unacquired, with all three counters zero, and the NOCARRIER report on the lost
  carrier is written unless in quiet mode.  Every accepted frame clears the run counter.
\<close>

theorem carrier_lost_after_21_low_confidence_turns:
  assumes "carrier st" and "noconfidence st = 0" and "low_confidence_run cfg inps st"
  shows "(length inps \<le> 20 \<longrightarrow>
           (\<exists>s. rx_loop cfg dec inps st = Continue s \<and> carrier s
              \<and> nframes_decoded s = nframes_decoded st
              \<and> confidence_total s = confidence_total st
              \<and> carrier_nsamples s = carrier_nsamples st
              \<and> stderr s = stderr st))
       \<and> (length inps = 21 \<longrightarrow>
           (\<exists>s. rx_loop cfg dec inps st = Continue s \<and> \<not> carrier s
              \<and> nframes_decoded s = 0 \<and> confidence_total s = 0 \<and> carrier_nsamples s = 0
              \<and> stderr s = stderr st @ (if quiet_mode cfg then [] else [carrier_report cfg st])))
       \<and> (\<forall>locate st' s'.
             rx_scan cfg dec locate st' = Continue s'
             \<and> \<not> samples_nvalid st' < u32_to_u64 (frame_nsamples (rx_find_frame_args cfg st'))
             \<and> fsk_confidence_threshold cfg < fst (locate (rx_find_frame_args cfg st'))
             \<longrightarrow> noconfidence s' = 0)"
proof (intro conjI impI allI)
  assume len: "length inps \<le> 20"
  have "unat (noconfidence st) + length inps \<le> 21" "unat (noconfidence st) \<le> 20"
    using len assms(2) by simp_all
  from low_run [OF assms(1) assms(3) this, of dec] obtain s where
    "rx_loop cfg dec inps st = Continue s" and "run_result cfg st (length inps) s" by blast
  moreover from this(2) len assms(1,2) have "carrier s \<and> nframes_decoded s = nframes_decoded st
      \<and> confidence_total s = confidence_total st \<and> carrier_nsamples s = carrier_nsamples st
      \<and> stderr s = stderr st"
    by (simp add: run_result_def same_carrier_totals_def)
  ultimately show "\<exists>s. rx_loop cfg dec inps st = Continue s \<and> carrier s
      \<and> nframes_decoded s = nframes_decoded st \<and> confidence_total s = confidence_total st
      \<and> carrier_nsamples s = carrier_nsamples st \<and> stderr s = stderr st"
    by blast
next
  assume len: "length inps = 21"
  have "unat (noconfidence st) + length inps \<le> 21" "unat (noconfidence st) \<le> 20"
    using len assms(2) by simp_all
  from low_run [OF assms(1) assms(3) this, of dec] obtain s where
    "rx_loop cfg dec inps st = Continue s" and "run_result cfg st (length inps) s" by blast
  moreover from this(2) len assms(2) have "\<not> carrier s
      \<and> nframes_decoded s = 0 \<and> confidence_total s = 0 \<and> carrier_nsamples s = 0
      \<and> stderr s = stderr st @ (if quiet_mode cfg then [] else [carrier_report cfg st])"
    by (simp add: run_result_def)
  ultimately show "\<exists>s. rx_loop cfg dec inps st = Continue s \<and> \<not> carrier s
      \<and> nframes_decoded s = 0 \<and> confidence_total s = 0 \<and> carrier_nsamples s = 0
      \<and> stderr s = stderr st @ (if quiet_mode cfg then [] else [carrier_report cfg st])"
    by blast
next
  fix locate and st' s' :: "'a rx_state"
  assume "rx_scan cfg dec locate st' = Continue s'
     \<and> \<not> samples_nvalid st' < u32_to_u64 (frame_nsamples (rx_find_frame_args cfg st'))
     \<and> fsk_confidence_threshold cfg < fst (locate (rx_find_frame_args cfg st'))"
  then show "noconfidence s' = 0" using accepted_clears_noconfidence by blast
qed

text \<open>The definitions that evaluate a turn of the example receiver.\<close>

lemmas eval_defs = rx_iteration_def rx_prepare_def rx_shift_def rx_read_def rx_autodetect_def
  rx_scan_def rx_find_frame_args_def rx_no_confidence_def rx_accept_frame_def rx_decode_frame_def
  chop_framing_bits_def printable_char_def report_no_carrier_def nsamples_per_bit_def
  samplebuf_size_def nsamples_overscan_def fsk_frame_overscan_def rx_init_def
  float_eval u32_to_u64_def u64_to_u32_def
  cfg_300_def plan_300_def find_A_def find_none_def turn_A_def turn_none_def
  framebits_decode_ascii8_def FSK_MAX_NOCONFIDENCE_BITS_def Let_def

lemma replicate_19:
  "replicate 19 x = [x, x, x, x, x, x, x, x, x, x, x, x, x, x, x, x, x, x, x]"
  by (simp add: eval_nat_numeral)

lemma replicate_20:
  "replicate 20 x = [x, x, x, x, x, x, x, x, x, x, x, x, x, x, x, x, x, x, x, x]"
  by (simp add: eval_nat_numeral)

lemma run_A:
  "rx_loop cfg_300 framebits_decode_ascii8 [turn_A 2080] (rx_init cfg_300 plan_300 ())
     = Continue st_A"
  by (simp add: eval_defs st_A_def)

lemma low_run_20: "low_confidence_run cfg_300 (turn_none 1600 # replicate 19 (turn_none 240)) st_A"
  by (simp add: eval_defs st_A_def replicate_19)

lemma low_run_21: "low_confidence_run cfg_300 (turn_none 1600 # replicate 20 (turn_none 240)) st_A"
  by (simp add: eval_defs st_A_def replicate_20)

lemma run_20:
  "rx_loop cfg_300 framebits_decode_ascii8 (turn_none 1600 # replicate 19 (turn_none 240)) st_A
     = Continue st_20"
  by (simp add: eval_defs st_A_def st_20_def replicate_19)

text \<open>
  Claim C1, as stated, fails: after the 300 bps receiver has acquired the carrier with
  one accepted frame, 20 consecutive low-confidence frame searches leave the carrier
  acquired and no NOCARRIER report is written.
\<close>

theorem carrier_kept_after_20_low_confidence_turns:
  "rx_loop cfg_300 framebits_decode_ascii8 [turn_A 2080] (rx_init cfg_300 plan_300 ())
     = Continue st_A
   \<and> low_confidence_run cfg_300 (turn_none 1600 # replicate 19 (turn_none 240)) st_A
   \<and> length (turn_none 1600 # replicate 19 (turn_none 240)) = 20
   \<and> rx_loop cfg_300 framebits_decode_ascii8 (turn_none 1600 # replicate 19 (turn_none 240)) st_A
     = Continue st_20
   \<and> carrier st_20 \<and> nframes_decoded st_20 = 1
   \<and> stderr st_20 = [CARRIER (Rate_rounded 300) (Finite 1250)]"
  using run_A low_run_20 run_20 by (simp add: st_20_def st_A_def)

text \<open>The theorem at work: after the accepted frame of \<open>A\<close>, 21 turns that find nothing
  lose the carrier, and the report on one frame at a perfect rate is written.\<close>

theorem carrier_lost_after_21_low_confidence_turns_witness:
  "\<exists>s. rx_loop cfg_300 framebits_decode_ascii8 (turn_none 1600 # replicate 20 (turn_none 240)) st_A
          = Continue s
      \<and> \<not> carrier s \<and> nframes_decoded s = 0
      \<and> stderr s = [CARRIER (Rate_rounded 300) (Finite 1250),
                     NOCARRIER 1 (Finite 3) (Finite 300) Rate_perfect]"
proof -
  have rep: "carrier_report cfg_300 st_A = NOCARRIER 1 (Finite 3) (Finite 300) Rate_perfect"
    by (simp add: carrier_report_def eval_defs st_A_def)
  have err: "stderr st_A @ (if quiet_mode cfg_300 then [] else [carrier_report cfg_300 st_A])
      = [CARRIER (Rate_rounded 300) (Finite 1250),
                     NOCARRIER 1 (Finite 3) (Finite 300) Rate_perfect]"
    by (simp add: rep cfg_300_simps) (simp add: st_A_def)
  have len: "length (turn_none 1600 # replicate 20 (turn_none 240)) = 21" by simp
  have "carrier st_A" "noconfidence st_A = 0" by (simp_all add: st_A_def)
  from carrier_lost_after_21_low_confidence_turns [OF this low_run_21, of framebits_decode_ascii8]
  have "\<exists>s. rx_loop cfg_300 framebits_decode_ascii8
              (turn_none 1600 # replicate 20 (turn_none 240)) st_A = Continue s
      \<and> \<not> carrier s \<and> nframes_decoded s = 0 \<and> confidence_total s = 0 \<and> carrier_nsamples s = 0
      \<and> stderr s = stderr st_A @ (if quiet_mode cfg_300 then [] else [carrier_report cfg_300 st_A])"
    using len by blast
  then show ?thesis unfolding err by blast
qed

section \<open>Leaving the loop: read errors and the end of the audio\<close>

lemma rx_loop_append:
  "rx_loop cfg dec (xs @ ys) st =
     (case rx_loop cfg dec xs st of Continue s \<Rightarrow> rx_loop cfg dec ys s | r \<Rightarrow> r)"
  by (induction xs arbitrary: st) (simp_all split: ctl.splits)

lemma rx_no_confidence_ret: "ret (rx_no_confidence cfg st) = ret st"
  by (simp add: rx_no_confidence_def Let_def)

lemma rx_accept_frame_ret: "ret (rx_accept_frame cfg dec c start st) = ret st"
  by (simp add: rx_accept_frame_def Let_def)

lemma rx_decode_frame_ret: "rx_decode_frame dec bits st = Continue s \<Longrightarrow> ret s = ret st"
  by (auto simp: rx_decode_frame_def split: option.splits)

lemma rx_scan_ret:
  assumes "rx_scan cfg dec locate st = Continue s"
  shows "ret s = ret st"
proof (cases "locate (rx_find_frame_args cfg st)")
  case (fields c bits start)
  show ?thesis
  proof (cases "c \<le> fsk_confidence_threshold cfg")
    case True
    with assms fields have "s = rx_no_confidence cfg st"
      by (simp add: rx_scan_def Let_def split: if_splits)
    then show ?thesis by (simp add: rx_no_confidence_ret)
  next
    case False
    with assms fields have
      "rx_decode_frame dec (chop_framing_bits (fskp st) bits) (rx_accept_frame cfg dec c start st)
         = Continue s"
      by (simp add: rx_scan_def Let_def split: if_splits)
    from rx_decode_frame_ret [OF this] show ?thesis by (simp add: rx_accept_frame_ret)
  qed
qed

lemma rx_prepare_Continue:
  assumes "rx_prepare cfg inp st = Continue s"
  shows "stderr s = stderr st \<and> ret s = ret st"
proof (cases rule: rx_prepare_cases [of cfg st inp])
  case (autodetect s1 s2)
  with assms show ?thesis
    using rx_shift_keeps [of cfg st s1] rx_read_Proceed [of cfg "simpleaudio_read inp" s1 s2]
      rx_autodetect_keeps [of cfg "fsk_detect_carrier inp" s2 s]
    by simp
qed (use assms in simp_all)

lemma rx_iteration_ret:
  assumes "rx_iteration cfg dec inp st = Continue s"
  shows "ret s = ret st"
proof (cases "rx_prepare cfg inp st")
  case (Proceed s1)
  with assms have "rx_scan cfg dec (fsk_find_frame inp) s1 = Continue s"
    by (simp add: rx_iteration_def)
  from rx_scan_ret [OF this] rx_prepare_Proceed [OF Proceed] show ?thesis by simp
next
  case (Continue s')
  with assms have "s' = s" by (simp add: rx_iteration_def)
  with Continue rx_prepare_Continue show ?thesis by blast
qed (use assms in \<open>simp_all add: rx_iteration_def\<close>)

lemma rx_loop_ret:
  "rx_loop cfg dec inps st = Continue s \<Longrightarrow> ret s = ret st"
proof (induction inps arbitrary: st)
  case Nil
  then show ?case by simp
next
  case (Cons inp inps)
  then obtain s1 where it: "rx_iteration cfg dec inp st = Continue s1"
    and "rx_loop cfg dec inps s1 = Continue s"
    by (cases "rx_iteration cfg dec inp st") simp_all
  with Cons.IH [of s1] rx_iteration_ret [OF it] show ?case by simp
qed

lemma rx_finish_result:
  "ret (rx_finish cfg st) = ret st \<and> stdout (rx_finish cfg st) = stdout st
   \<and> stderr (rx_finish cfg st)
       = stderr st @ (if carrier st \<and> \<not> quiet_mode cfg then [carrier_report cfg st] else [])"
  by (simp add: rx_finish_def carrier_report_def)

lemma main_receive_Break:
  assumes "rx_loop (sanitize_search_limit cfg0) dec inps (rx_init (sanitize_search_limit cfg0) plan d)
             = Continue st"
    and "rx_iteration (sanitize_search_limit cfg0) dec inp st = Break s"
  shows "main_receive cfg0 plan dec d (inps @ [inp]) =
    Some (ret s, stdout s,
          stderr s @ (if carrier s \<and> \<not> quiet_mode (sanitize_search_limit cfg0)
                      then [carrier_report (sanitize_search_limit cfg0) s] else []))"
  using assms by (simp add: main_receive_def Let_def rx_loop_append rx_finish_result)

lemma read_error_Break:
  assumes "rx_shift cfg st = Proceed s1"
    and "0 < read_nsamples s1" and "samples_nvalid s1 + read_nsamples s1 \<le> samplebuf_size cfg"
    and "simpleaudio_read inp < 0"
  shows "rx_iteration cfg dec inp st
           = Break (s1 \<lparr> stderr := stderr s1 @ [Simpleaudio_read_error], ret := - 1 \<rparr>)"
  using assms by (simp add: rx_iteration_def rx_prepare_def rx_read_def)

lemma eof_Break:
  assumes "rx_shift cfg st = Proceed s1"
    and "0 < read_nsamples s1" and "samples_nvalid s1 + read_nsamples s1 \<le> samplebuf_size cfg"
    and "simpleaudio_read inp = 0" and "samples_nvalid s1 = 0"
  shows "rx_iteration cfg dec inp st = Break s1"
  using assms by (simp add: rx_iteration_def rx_prepare_def rx_read_def)

text \<open>
  Claim C9.  Let the receive loop of \<^verbatim>\<open>main\<close> be running in state \<open>st\<close> after some
  turns, and let the next turn get as far as \<^verbatim>\<open>simpleaudio_read\<close>.  If the read
  returns an error, \<open>simpleaudio_read: error\<close> is written to standard error, the loop
  is left and \<^verbatim>\<open>main\<close> returns -1.  If the read returns 0 and no sample remains,
  the loop is left and \<^verbatim>\<open>main\<close> returns 0.  Either way the final NOCARRIER report
  is written when the carrier was acquired and quiet mode is off.
\<close>

theorem read_error_returns_minus_1_and_eof_returns_0:
  assumes "cfg = sanitize_search_limit cfg0"
    and "rx_loop cfg dec inps (rx_init cfg plan d) = Continue st"
    and "rx_shift cfg st = Proceed s1"
    and "0 < read_nsamples s1" and "samples_nvalid s1 + read_nsamples s1 \<le> samplebuf_size cfg"
  shows "(simpleaudio_read inp < 0 \<longrightarrow>
            main_receive cfg0 plan dec d (inps @ [inp]) =
              Some (- 1, stdout st,
                    stderr st @ [Simpleaudio_read_error]
                    @ (if carrier st \<and> \<not> quiet_mode cfg0 then [carrier_report cfg st] else [])))
       \<and> (simpleaudio_read inp = 0 \<and> samples_nvalid s1 = 0 \<longrightarrow>
            main_receive cfg0 plan dec d (inps @ [inp]) =
              Some (0, stdout st,
                    stderr st
                    @ (if carrier st \<and> \<not> quiet_mode cfg0 then [carrier_report cfg st] else [])))"
proof -
  have quiet: "quiet_mode cfg = quiet_mode cfg0"
    using assms(1) by (simp add: sanitize_search_limit_def)
  have keeps: "same_carrier_stats st s1" "stderr s1 = stderr st" "ret s1 = ret st"
    using rx_shift_keeps [of cfg st s1] assms(3) by simp_all
  have ret0: "ret st = 0"
    using rx_loop_ret [OF assms(2)] by (simp add: rx_init_def)
  have car: "carrier s1 = carrier st" and out: "stdout s1 = stdout st"
    using keeps(1) by (simp_all add: same_carrier_stats_def)
  have rep: "carrier_report cfg s1 = carrier_report cfg st"
    using keeps(1) by (intro carrier_report_same same_carrier_stats_totals)
  let ?e = "s1 \<lparr> stderr := stderr s1 @ [Simpleaudio_read_error], ret := - 1 \<rparr>"
  have rep_e: "carrier_report cfg ?e = carrier_report cfg st"
    using rep by (simp add: carrier_report_def)
  show ?thesis
  proof (intro conjI impI)
    assume "simpleaudio_read inp < 0"
    from read_error_Break [OF assms(3-5) this, of dec]
    have "rx_iteration cfg dec inp st = Break ?e" .
    from main_receive_Break [OF assms(2) [unfolded assms(1)] this [unfolded assms(1)]]
    show "main_receive cfg0 plan dec d (inps @ [inp]) =
              Some (- 1, stdout st,
                    stderr st @ [Simpleaudio_read_error]
                    @ (if carrier st \<and> \<not> quiet_mode cfg0 then [carrier_report cfg st] else []))"
      using rep_e car out keeps(2) quiet by (simp add: assms(1))
  next
    assume "simpleaudio_read inp = 0 \<and> samples_nvalid s1 = 0"
    then have "rx_iteration cfg dec inp st = Break s1"
      using eof_Break [OF assms(3-5), of inp dec] by simp
    from main_receive_Break [OF assms(2) [unfolded assms(1)] this [unfolded assms(1)]]
    show "main_receive cfg0 plan dec d (inps @ [inp]) =
              Some (0, stdout st,
                    stderr st
                    @ (if carrier st \<and> \<not> quiet_mode cfg0 then [carrier_report cfg st] else []))"
      using rep car out keeps(2,3) ret0 quiet by (simp add: assms(1))
  qed
qed

section \<open>What a frame search does to the state\<close>

lemma rx_no_confidence_effect:
  "stdout (rx_no_confidence cfg st) = stdout st
   \<and> decoder_state (rx_no_confidence cfg st) = decoder_state st
   \<and> (nframes_decoded (rx_no_confidence cfg st) = nframes_decoded st
        \<or> nframes_decoded (rx_no_confidence cfg st) = 0)
   \<and> (confidence_total (rx_no_confidence cfg st) = confidence_total st
        \<or> confidence_total (rx_no_confidence cfg st) = 0)
   \<and> (carrier_nsamples (rx_no_confidence cfg st) = carrier_nsamples st
        \<or> carrier_nsamples (rx_no_confidence cfg st) = 0)
   \<and> advance (rx_no_confidence cfg st)
        = float_to_u32 (add32 (nsamples_per_bit cfg) (u32_to_float (nsamples_overscan cfg)))"
  by (simp add: rx_no_confidence_def rx_find_frame_args_def Let_def)

lemma rx_accept_frame_effect:
  "carrier (rx_accept_frame cfg dec c start st)
   \<and> nframes_decoded (rx_accept_frame cfg dec c start st) = nframes_decoded st + 1
   \<and> confidence_total (rx_accept_frame cfg dec c start st) = add32 (confidence_total st) c
   \<and> carrier_nsamples (rx_accept_frame cfg dec c start st) = accepted_nsamples cfg start st
   \<and> stdout (rx_accept_frame cfg dec c start st) = stdout st
   \<and> decoder_state (rx_accept_frame cfg dec c start st)
       = (if carrier st then decoder_state st else decode_reset dec (decoder_state st))
   \<and> advance (rx_accept_frame cfg dec c start st)
       = float_to_u32
           (sub32 (add32 (u32_to_float start)
                     (mul32 (nsamples_per_bit cfg) (u32_to_float (n_data_bits (fskp st) + 2))))
              (u32_to_float (nsamples_overscan cfg)))"
  by (simp add: rx_accept_frame_def accepted_nsamples_def Let_def)

lemma rx_decode_frame_Some:
  "decode_frame dec (decoder_state st) 4096 bits = Some (buf, d) \<Longrightarrow>
   rx_decode_frame dec bits st
     = Continue (st \<lparr> decoder_state := d, stdout := stdout st @ map printable_char buf \<rparr>)"
  by (simp add: rx_decode_frame_def)

lemma rx_decode_frame_None:
  "decode_frame dec (decoder_state st) 4096 bits = None \<Longrightarrow> rx_decode_frame dec bits st = Abort"
  by (simp add: rx_decode_frame_def)

lemma rx_decode_frame_advance:
  "rx_decode_frame dec bits st = Continue s \<Longrightarrow> advance s = advance st"
  by (auto simp: rx_decode_frame_def split: option.splits)

lemma searched_turn:
  assumes "rx_prepare cfg inp st = Proceed s"
    and "\<not> samples_nvalid s < u32_to_u64 (frame_nsamples (rx_find_frame_args cfg s))"
    and "fsk_find_frame inp (rx_find_frame_args cfg s) = (confidence, bits, frame_start_sample)"
  shows "rx_iteration cfg dec inp st =
    (if confidence \<le> fsk_confidence_threshold cfg then Continue (rx_no_confidence cfg s)
     else rx_decode_frame dec (chop_framing_bits (fskp s) bits)
            (rx_accept_frame cfg dec confidence frame_start_sample s))"
  using assms by (simp add: rx_iteration_def rx_scan_def Let_def)

section \<open>The example receiver at work\<close>

lemma prepare_A: "rx_prepare cfg_300 (turn_A 2080) (rx_init cfg_300 plan_300 ()) = Proceed st_300"
  by (simp add: eval_defs st_300_def)

lemma prepare_none:
  "rx_prepare cfg_300 (turn_none 2080) (rx_init cfg_300 plan_300 ()) = Proceed st_300"
  by (simp add: eval_defs st_300_def)

lemma fits_300:
  "\<not> samples_nvalid st_300 < u32_to_u64 (frame_nsamples (rx_find_frame_args cfg_300 st_300))"
  by (simp add: args_300 st_300_simps u32_to_u64_def)

lemma found_A:
  "fsk_find_frame (turn_A 2080) (rx_find_frame_args cfg_300 st_300) = (Finite 3, 0x505, 80)"
  by (simp add: turn_A_def find_A_def)

lemma found_none:
  "fsk_find_frame (turn_none 2080) (rx_find_frame_args cfg_300 st_300) = (Finite 0, 0, 0)"
  by (simp add: turn_none_def find_none_def)

lemma iteration_A:
  "rx_iteration cfg_300 framebits_decode_ascii8 (turn_A 2080) (rx_init cfg_300 plan_300 ())
     = Continue st_A"
  using run_A by (simp split: ctl.splits)

lemma iteration_none:
  "rx_iteration cfg_300 framebits_decode_ascii8 (turn_none 2080) (rx_init cfg_300 plan_300 ())
     = Continue st_none"
  by (simp add: eval_defs st_none_def st_300_def)

lemma run_lost:
  "rx_loop cfg_300 framebits_decode_ascii8
     (turn_A 2080 # turn_none 1600 # replicate 20 (turn_none 240)) (rx_init cfg_300 plan_300 ())
     = Continue st_lost"
  by (simp add: eval_defs st_lost_def st_20_def st_A_def replicate_20)

text \<open>The theorem at work, on the state after the accepted frame and on the
  state after the carrier is lost.\<close>

theorem carrier_invariant_after_every_iteration_witness:
  "rx_loop cfg_300 framebits_decode_ascii8 [turn_A 2080] (rx_init cfg_300 plan_300 ())
     = Continue st_A
   \<and> 0 < nframes_decoded st_A \<and> carrier st_A
   \<and> rx_loop cfg_300 framebits_decode_ascii8
        (turn_A 2080 # turn_none 1600 # replicate 20 (turn_none 240)) (rx_init cfg_300 plan_300 ())
     = Continue st_lost
   \<and> \<not> carrier st_lost \<and> confidence_total st_lost = 0 \<and> carrier_nsamples st_lost = 0
   \<and> nframes_decoded st_lost = 0"
proof -
  have "0 < nframes_decoded st_A" by (simp add: st_A_def)
  moreover have "\<not> carrier st_lost" by (simp add: st_lost_def)
  moreover note
    carrier_invariant_after_every_iteration [OF disjI1 [OF run_A]]
    carrier_invariant_after_every_iteration [OF disjI1 [OF run_lost]]
  ultimately show ?thesis using run_A run_lost by blast
qed

lemma sanitize_300: "sanitize_search_limit cfg_300 = cfg_300"
  by (simp add: sanitize_search_limit_def cfg_300_simps less_cfloat_def)

lemma shift_A: "rx_shift cfg_300 st_A = Proceed st_A_shifted"
  by (simp add: eval_defs st_A_def st_A_shifted_def)

lemma shift_init: "rx_shift cfg_300 (rx_init cfg_300 plan_300 ()) = Proceed (rx_init cfg_300 plan_300 ())"
  by (simp add: eval_defs)

lemma size_300: "samplebuf_size cfg_300 = 2080"
  by (simp add: eval_defs)

text \<open>The theorem at work: a read error in the second turn, with carrier, and
  the end of an empty audio stream in the first turn.\<close>

theorem read_error_returns_minus_1_and_eof_returns_0_witness:
  "main_receive cfg_300 plan_300 framebits_decode_ascii8 () [turn_A 2080, turn_none (- 1)]
     = Some (- 1, [0x41], [CARRIER (Rate_rounded 300) (Finite 1250), Simpleaudio_read_error,
                            NOCARRIER 1 (Finite 3) (Finite 300) Rate_perfect])
   \<and> main_receive cfg_300 plan_300 framebits_decode_ascii8 () [turn_none 0] = Some (0, [], [])"
proof -
  have rep: "carrier_report cfg_300 st_A = NOCARRIER 1 (Finite 3) (Finite 300) Rate_perfect"
    by (simp add: carrier_report_def eval_defs st_A_def)
  have a: "0 < read_nsamples st_A_shifted"
    "samples_nvalid st_A_shifted + read_nsamples st_A_shifted \<le> samplebuf_size cfg_300"
    by (simp_all add: st_A_shifted_def st_A_def size_300)
  have b: "0 < read_nsamples (rx_init cfg_300 plan_300 ())"
    "samples_nvalid (rx_init cfg_300 plan_300 ()) + read_nsamples (rx_init cfg_300 plan_300 ())
       \<le> samplebuf_size cfg_300"
    by (simp_all add: rx_init_def size_300)
  have e: "rx_loop cfg_300 framebits_decode_ascii8 [] (rx_init cfg_300 plan_300 ())
      = Continue (rx_init cfg_300 plan_300 ())" by simp
  from read_error_returns_minus_1_and_eof_returns_0
    [OF sanitize_300 [symmetric] run_A shift_A a, of "turn_none (- 1)"]
  have "main_receive cfg_300 plan_300 framebits_decode_ascii8 () [turn_A 2080, turn_none (- 1)]
     = Some (- 1, [0x41], [CARRIER (Rate_rounded 300) (Finite 1250), Simpleaudio_read_error,
                            NOCARRIER 1 (Finite 3) (Finite 300) Rate_perfect])"
    by (simp add: turn_none_def rep cfg_300_simps) (simp add: st_A_def)
  moreover
  from read_error_returns_minus_1_and_eof_returns_0
    [OF sanitize_300 [symmetric] e shift_init b, of "turn_none 0"]
  have "main_receive cfg_300 plan_300 framebits_decode_ascii8 () [turn_none 0] = Some (0, [], [])"
    by (simp add: turn_none_def) (simp add: rx_init_def)
  ultimately show ?thesis by blast
qed

section \<open>Acceptance of a frame\<close>

lemma cfg_nan_threshold_simps:
  "sample_rate cfg_nan_threshold = 48000" "bfsk_data_rate cfg_nan_threshold = Finite 300"
  "fsk_confidence_threshold cfg_nan_threshold = NaN"
  "carrier_autodetect_threshold cfg_nan_threshold = Finite 0"
  "quiet_mode cfg_nan_threshold = False"
  by (simp_all add: cfg_nan_threshold_def cfg_300_def)

lemma npb_nan_threshold: "nsamples_per_bit cfg_nan_threshold = Finite 160"
  by (simp add: nsamples_per_bit_def cfg_nan_threshold_simps float_eval)

lemma overscan_nan_threshold: "nsamples_overscan cfg_nan_threshold = 80"
  by (simp add: nsamples_overscan_def npb_nan_threshold fsk_frame_overscan_def float_eval Let_def)

lemma size_nan_threshold: "samplebuf_size cfg_nan_threshold = 2080"
  by (simp add: samplebuf_size_def npb_nan_threshold float_eval)

text \<open>
  Claim C2, as stated, fails when the threshold is a NaN: run with \<^verbatim>\<open>-c nan\<close>, the
  receiver accepts in its first turn a frame of confidence 0, which is not strictly
  greater than the threshold; the frame is counted and a byte is written to standard
  output.  (The option leaves the search limit as it is: \<^verbatim>\<open>2.3 < NaN\<close> is false.)
\<close>

theorem frame_accepted_with_nan_threshold:
  "sanitize_search_limit cfg_nan_threshold = cfg_nan_threshold
   \<and> fsk_find_frame (turn_none 2080)
        (rx_find_frame_args cfg_nan_threshold
           ((rx_init cfg_nan_threshold plan_300 ()) \<lparr> samples_nvalid := 2080 \<rparr>))
       = (Finite 0, 0, 0)
   \<and> \<not> fsk_confidence_threshold cfg_nan_threshold < Finite 0
   \<and> rx_iteration cfg_nan_threshold framebits_decode_ascii8 (turn_none 2080)
        (rx_init cfg_nan_threshold plan_300 ()) = Continue st_dot
   \<and> carrier st_dot \<and> nframes_decoded st_dot = 1 \<and> stdout st_dot = [0x2E]"
proof (intro conjI)
  show "sanitize_search_limit cfg_nan_threshold = cfg_nan_threshold"
    by (simp add: sanitize_search_limit_def cfg_nan_threshold_simps cfloat_NaN_compare)
  show "fsk_find_frame (turn_none 2080)
        (rx_find_frame_args cfg_nan_threshold
           ((rx_init cfg_nan_threshold plan_300 ()) \<lparr> samples_nvalid := 2080 \<rparr>))
       = (Finite 0, 0, 0)"
    by (simp add: turn_none_def find_none_def)
  show "\<not> fsk_confidence_threshold cfg_nan_threshold < Finite 0"
    by (simp add: cfg_nan_threshold_simps cfloat_NaN_compare)
  show "rx_iteration cfg_nan_threshold framebits_decode_ascii8 (turn_none 2080)
        (rx_init cfg_nan_threshold plan_300 ()) = Continue st_dot"
    by (simp add: rx_iteration_def rx_prepare_def rx_shift_def rx_read_def rx_autodetect_def
          rx_scan_def rx_find_frame_args_def rx_accept_frame_def rx_decode_frame_def
          chop_framing_bits_def printable_char_def rx_init_def size_nan_threshold
          npb_nan_threshold overscan_nan_threshold cfg_nan_threshold_simps cfloat_NaN_compare
          plan_300_def turn_none_def find_none_def framebits_decode_ascii8_def st_dot_def
          float_eval u32_to_u64_def Let_def)
  show "carrier st_dot" "nframes_decoded st_dot = 1" "stdout st_dot = [0x2E]"
    by (simp_all add: st_dot_def)
qed

text \<open>
  Claim C2, amended.  In a turn that gets as far as the frame search and locates a
  frame with confidence \<open>C\<close>, the frame is accepted if and only if \<open>C <= threshold\<close>
  is false, which for a confidence and a threshold that are not NaN is \<open>C > threshold\<close>.
  When \<open>C <= threshold\<close>, nothing is written to standard output, the decoder is not
  called and no frame is counted (the counters stay, or are reset to zero with the
  carrier).  Otherwise the frame is accepted: the carrier is (or becomes) acquired,
  the carrier statistics are updated in \<^verbatim>\<open>float\<close> arithmetic, the frame is counted,
  its data bits are decoded and the bytes decoded are written to standard output (or
  the decoder's assertion fails and the program aborts).
\<close>

theorem frame_accepted_iff_confidence_not_le_threshold:
  assumes "rx_prepare cfg inp st = Proceed s"
    and "\<not> samples_nvalid s < u32_to_u64 (frame_nsamples (rx_find_frame_args cfg s))"
    and "fsk_find_frame inp (rx_find_frame_args cfg s) = (confidence, bits, frame_start_sample)"
  shows "(confidence \<noteq> NaN \<and> fsk_confidence_threshold cfg \<noteq> NaN \<longrightarrow>
            (\<not> confidence \<le> fsk_confidence_threshold cfg)
              = (fsk_confidence_threshold cfg < confidence))
       \<and> (if confidence \<le> fsk_confidence_threshold cfg
          then (\<exists>s'. rx_iteration cfg dec inp st = Continue s'
                 \<and> stdout s' = stdout st \<and> decoder_state s' = decoder_state st
                 \<and> (nframes_decoded s' = nframes_decoded st \<or> nframes_decoded s' = 0)
                 \<and> (confidence_total s' = confidence_total st \<or> confidence_total s' = 0)
                 \<and> (carrier_nsamples s' = carrier_nsamples st \<or> carrier_nsamples s' = 0))
          else (case decode_frame dec
                     (if carrier st then decoder_state st else decode_reset dec (decoder_state st))
                     4096 (chop_framing_bits (fskp s) bits) of
                 None \<Rightarrow> rx_iteration cfg dec inp st = Abort
               | Some (dataoutbuf, d) \<Rightarrow>
                   (\<exists>s'. rx_iteration cfg dec inp st = Continue s' \<and> carrier s'
                      \<and> nframes_decoded s' = nframes_decoded st + 1
                      \<and> confidence_total s' = add32 (confidence_total st) confidence
                      \<and> carrier_nsamples s' = accepted_nsamples cfg frame_start_sample st
                      \<and> noconfidence s' = 0
                      \<and> decoder_state s' = d
                      \<and> stdout s' = stdout st @ map printable_char dataoutbuf)))"
proof (rule conjI)
  show "confidence \<noteq> NaN \<and> fsk_confidence_threshold cfg \<noteq> NaN \<longrightarrow>
            (\<not> confidence \<le> fsk_confidence_threshold cfg)
              = (fsk_confidence_threshold cfg < confidence)"
    by (simp add: cfloat_not_le_iff)
next
  have same: "same_carrier_stats st s"
    using rx_prepare_keeps [of cfg inp st s] assms(1) by simp
  then have eqs: "carrier s = carrier st" "confidence_total s = confidence_total st"
    "nframes_decoded s = nframes_decoded st" "carrier_nsamples s = carrier_nsamples st"
    "decoder_state s = decoder_state st" "stdout s = stdout st"
    "n_data_bits (fskp s) = n_data_bits (fskp st)"
    by (simp_all add: same_carrier_stats_def)
  have acc: "accepted_nsamples cfg frame_start_sample s = accepted_nsamples cfg frame_start_sample st"
    using eqs by (simp add: accepted_nsamples_def)
  note turn = searched_turn [OF assms, of dec]
  let ?a = "rx_accept_frame cfg dec confidence frame_start_sample s"
  note eff = rx_accept_frame_effect [of cfg dec confidence frame_start_sample s]
  show "if confidence \<le> fsk_confidence_threshold cfg
          then (\<exists>s'. rx_iteration cfg dec inp st = Continue s'
                 \<and> stdout s' = stdout st \<and> decoder_state s' = decoder_state st
                 \<and> (nframes_decoded s' = nframes_decoded st \<or> nframes_decoded s' = 0)
                 \<and> (confidence_total s' = confidence_total st \<or> confidence_total s' = 0)
                 \<and> (carrier_nsamples s' = carrier_nsamples st \<or> carrier_nsamples s' = 0))
          else (case decode_frame dec
                     (if carrier st then decoder_state st else decode_reset dec (decoder_state st))
                     4096 (chop_framing_bits (fskp s) bits) of
                 None \<Rightarrow> rx_iteration cfg dec inp st = Abort
               | Some (dataoutbuf, d) \<Rightarrow>
                   (\<exists>s'. rx_iteration cfg dec inp st = Continue s' \<and> carrier s'
                      \<and> nframes_decoded s' = nframes_decoded st + 1
                      \<and> confidence_total s' = add32 (confidence_total st) confidence
                      \<and> carrier_nsamples s' = accepted_nsamples cfg frame_start_sample st
                      \<and> noconfidence s' = 0
                      \<and> decoder_state s' = d
                      \<and> stdout s' = stdout st @ map printable_char dataoutbuf))"
  proof (cases "confidence \<le> fsk_confidence_threshold cfg")
    case True
    then have "rx_iteration cfg dec inp st = Continue (rx_no_confidence cfg s)"
      using turn by simp
    then show ?thesis
      using True rx_no_confidence_effect [of cfg s] eqs by simp
  next
    case False
    then have it: "rx_iteration cfg dec inp st
        = rx_decode_frame dec (chop_framing_bits (fskp s) bits) ?a"
      using turn by simp
    have ds: "decoder_state ?a
        = (if carrier st then decoder_state st else decode_reset dec (decoder_state st))"
      using eff eqs by simp
    show ?thesis
    proof (cases "decode_frame dec (decoder_state ?a) 4096 (chop_framing_bits (fskp s) bits)")
      case None
      from rx_decode_frame_None [OF this] it False None ds show ?thesis by simp
    next
      case (Some r)
      obtain buf d where r: "r = (buf, d)" by (cases r)
      from rx_decode_frame_Some [OF Some [unfolded r]] it
      have "rx_iteration cfg dec inp st
          = Continue (?a \<lparr> decoder_state := d, stdout := stdout ?a @ map printable_char buf \<rparr>)"
        by simp
      moreover have "noconfidence ?a = 0" by (rule rx_accept_frame_noconfidence)
      ultimately show ?thesis
        using False Some r ds eff eqs acc by simp
    qed
  qed
qed

text \<open>The theorem at work, on a first turn that finds \<open>A\<close> with confidence 3
  (accepted, \<open>A\<close> is printed) and on one that finds nothing (rejected, nothing is
  printed or counted).\<close>

theorem frame_accepted_iff_confidence_not_le_threshold_witness:
  "(\<exists>s'. rx_iteration cfg_300 framebits_decode_ascii8 (turn_A 2080) (rx_init cfg_300 plan_300 ())
            = Continue s'
        \<and> carrier s' \<and> nframes_decoded s' = 1 \<and> confidence_total s' = Finite 3
        \<and> stdout s' = [0x41])
   \<and> (\<exists>s'. rx_iteration cfg_300 framebits_decode_ascii8 (turn_none 2080)
              (rx_init cfg_300 plan_300 ()) = Continue s'
        \<and> stdout s' = [] \<and> nframes_decoded s' = 0)"
proof -
  let ?init = "rx_init cfg_300 plan_300 ()"
  let ?dec = "framebits_decode_ascii8 :: unit framebits_decoder"
  have init: "carrier ?init = False" "nframes_decoded ?init = 0" "confidence_total ?init = 0"
    "stdout ?init = []" "decoder_state ?init = ()"
    by (simp_all add: rx_init_def)
  have chop: "chop_framing_bits (fskp st_300) 0x505 = 0x41"
    by (simp add: chop_framing_bits_def st_300_simps plan_300_def)
  have dec: "decode_frame ?dec
      (if carrier ?init then decoder_state ?init else decode_reset ?dec (decoder_state ?init))
      4096 (chop_framing_bits (fskp st_300) 0x505) = Some ([0x41], ())"
    unfolding chop by (simp add: framebits_decode_ascii8_def)
  have pr: "map printable_char [0x41] = [0x41]" by (simp add: printable_char_def)
  have hi: "\<not> Finite 3 \<le> fsk_confidence_threshold cfg_300"
    by (simp add: cfg_300_simps less_eq_cfloat_def)
  have lo: "Finite 0 \<le> fsk_confidence_threshold cfg_300"
    by (simp add: cfg_300_simps less_eq_cfloat_def)
  have sum: "add32 0 (Finite 3) = Finite 3" by (simp add: float_eval)
  from frame_accepted_iff_confidence_not_le_threshold
    [OF prepare_A fits_300 found_A, of ?dec, THEN conjunct2]
  have "\<exists>s'. rx_iteration cfg_300 ?dec (turn_A 2080) ?init = Continue s' \<and> carrier s'
      \<and> nframes_decoded s' = nframes_decoded ?init + 1
      \<and> confidence_total s' = add32 (confidence_total ?init) (Finite 3)
      \<and> carrier_nsamples s' = accepted_nsamples cfg_300 80 ?init
      \<and> noconfidence s' = 0 \<and> decoder_state s' = ()
      \<and> stdout s' = stdout ?init @ map printable_char [0x41]"
    unfolding if_not_P [OF hi] dec by (simp only: option.case prod.case)
  then obtain s' where "rx_iteration cfg_300 ?dec (turn_A 2080) ?init = Continue s'"
    "carrier s'" "nframes_decoded s' = nframes_decoded ?init + 1"
    "confidence_total s' = add32 (confidence_total ?init) (Finite 3)"
    "stdout s' = stdout ?init @ map printable_char [0x41]" by blast
  then have a: "\<exists>s'. rx_iteration cfg_300 ?dec (turn_A 2080) ?init = Continue s'
        \<and> carrier s' \<and> nframes_decoded s' = 1 \<and> confidence_total s' = Finite 3
        \<and> stdout s' = [0x41]"
    unfolding init pr sum by simp
  from frame_accepted_iff_confidence_not_le_threshold
    [OF prepare_none fits_300 found_none, of ?dec, THEN conjunct2]
  obtain s' where "rx_iteration cfg_300 ?dec (turn_none 2080) ?init = Continue s'"
    "stdout s' = stdout ?init"
    "nframes_decoded s' = nframes_decoded ?init \<or> nframes_decoded s' = 0"
    unfolding if_P [OF lo] by blast
  then have b: "\<exists>s'. rx_iteration cfg_300 ?dec (turn_none 2080) ?init = Continue s'
        \<and> stdout s' = [] \<and> nframes_decoded s' = 0"
    unfolding init by auto
  from a b show ?thesis by (rule conjI)
qed

section \<open>The advance of the sample buffer\<close>

text \<open>
  Claim C3.  In a turn that gets as far as the frame search and after which the loop
  continues, the buffer advance for the next turn is
  \<open>try_max_nsamples = nsamples_per_bit + nsamples_overscan\<close> when the attempt is
  rejected (\<open>C <= threshold\<close>), and
  \<open>frame_start_sample + nsamples_per_bit * (n_data_bits + 2) - nsamples_overscan\<close> when
  the frame is accepted; each is evaluated as the program does, in \<^verbatim>\<open>float\<close>
  arithmetic from left to right, and converted to \<^verbatim>\<open>unsigned int\<close>.
\<close>

theorem advance_after_frame_search:
  assumes "rx_prepare cfg inp st = Proceed s"
    and "\<not> samples_nvalid s < u32_to_u64 (frame_nsamples (rx_find_frame_args cfg s))"
    and "fsk_find_frame inp (rx_find_frame_args cfg s) = (confidence, bits, frame_start_sample)"
    and "rx_iteration cfg dec inp st = Continue s'"
  shows "try_max_nsamples (rx_find_frame_args cfg s)
           = float_to_u32 (add32 (nsamples_per_bit cfg) (u32_to_float (nsamples_overscan cfg)))
       \<and> advance s' =
          (if confidence \<le> fsk_confidence_threshold cfg
           then try_max_nsamples (rx_find_frame_args cfg s)
           else float_to_u32
                  (sub32 (add32 (u32_to_float frame_start_sample)
                            (mul32 (nsamples_per_bit cfg)
                               (u32_to_float (n_data_bits (fskp st) + 2))))
                     (u32_to_float (nsamples_overscan cfg))))"
proof -
  have same: "same_carrier_stats st s"
    using rx_prepare_keeps [of cfg inp st s] assms(1) by simp
  then have D: "n_data_bits (fskp s) = n_data_bits (fskp st)"
    by (simp add: same_carrier_stats_def)
  have tm: "try_max_nsamples (rx_find_frame_args cfg s)
           = float_to_u32 (add32 (nsamples_per_bit cfg) (u32_to_float (nsamples_overscan cfg)))"
    by (simp add: rx_find_frame_args_def)
  note turn = searched_turn [OF assms(1-3), of dec]
  show ?thesis
  proof (cases "confidence \<le> fsk_confidence_threshold cfg")
    case True
    with turn assms(4) have "s' = rx_no_confidence cfg s" by simp
    with True tm rx_no_confidence_effect [of cfg s] show ?thesis by simp
  next
    case False
    with turn assms(4) have
      "rx_decode_frame dec (chop_framing_bits (fskp s) bits)
         (rx_accept_frame cfg dec confidence frame_start_sample s) = Continue s'" by simp
    from rx_decode_frame_advance [OF this] False tm D
      rx_accept_frame_effect [of cfg dec confidence frame_start_sample s]
    show ?thesis by simp
  qed
qed

lemma cfg_332_simps:
  "sample_rate cfg_332 = 48000" "bfsk_data_rate cfg_332 = Finite (10892411 / 32768)"
  "fsk_confidence_threshold cfg_332 = Finite 2"
  "carrier_autodetect_threshold cfg_332 = Finite 0" "quiet_mode cfg_332 = False"
  by (simp_all add: cfg_332_def cfg_300_def)

lemma size_332: "samplebuf_size cfg_332 = 1885"
  by (simp add: samplebuf_size_def npb_332 float_eval)

lemma overscan_332: "nsamples_overscan cfg_332 = 72"
proof -
  have a: "rnd32 (4731699 / 65536) = Finite (4731699 / 65536)"
    using rnd32_dyadic [of 4731699 16] by simp
  have b: "rnd64 (4764467 / 65536) = Finite (4764467 / 65536)"
    using rnd64_dyadic [of 4764467 16] by simp
  show ?thesis
    by (simp add: nsamples_overscan_def npb_332 fsk_frame_overscan_def float_eval a b Let_def)
qed

lemma frame_nsamples_332: "frame_nsamples (rx_find_frame_args cfg_332 st_332) = 1588"
  by (simp add: rx_find_frame_args_def npb_332 st_332_def rx_init_def plan_300_def float_eval
        rnd32_eval [where e = 10] round_half_even_def power_int_minus)

lemma fits_332:
  "\<not> samples_nvalid st_332 < u32_to_u64 (frame_nsamples (rx_find_frame_args cfg_332 st_332))"
proof -
  have "samples_nvalid st_332 = 1885" by (simp add: st_332_def)
  then show ?thesis by (simp add: frame_nsamples_332 u32_to_u64_def)
qed

lemma prepare_332:
  "rx_prepare cfg_332 (turn_72 1885) (rx_init cfg_332 plan_300 ()) = Proceed st_332"
  by (simp add: rx_prepare_def rx_shift_def rx_read_def rx_autodetect_def rx_init_def size_332
        cfg_332_simps turn_72_def st_332_def u32_to_u64_def less_cfloat_def zero_cfloat_def
        Let_def)

lemma iteration_332:
  "rx_iteration cfg_332 framebits_decode_ascii8 (turn_72 1885) (rx_init cfg_332 plan_300 ())
     = Continue ((rx_accept_frame cfg_332 framebits_decode_ascii8 (Finite 3) 72 st_332)
                   \<lparr> decoder_state := (),
                     stdout := stdout (rx_accept_frame cfg_332 framebits_decode_ascii8
                                         (Finite 3) 72 st_332)
                               @ map printable_char [0x41] \<rparr>)"
proof -
  let ?dec = "framebits_decode_ascii8 :: unit framebits_decoder"
  have found: "fsk_find_frame (turn_72 1885) (rx_find_frame_args cfg_332 st_332)
      = (Finite 3, 0x505, 72)"
    by (simp add: turn_72_def find_72_def)
  have hi: "\<not> Finite 3 \<le> fsk_confidence_threshold cfg_332"
    by (simp add: cfg_332_simps less_eq_cfloat_def)
  have chop: "chop_framing_bits (fskp st_332) 0x505 = 0x41"
    by (simp add: chop_framing_bits_def st_332_def rx_init_def plan_300_def)
  have "decode_frame ?dec (decoder_state (rx_accept_frame cfg_332 ?dec (Finite 3) 72 st_332))
          4096 0x41 = Some ([0x41], ())"
    by (simp add: framebits_decode_ascii8_def)
  from rx_decode_frame_Some [OF this] searched_turn [OF prepare_332 fits_332 found, of ?dec] hi chop
  show ?thesis by simp
qed

text \<open>The theorem at work: at 300 bps the advance is \<open>80 + 160 * 10 - 80 = 1600\<close>
  after the accepted frame and \<open>160 + 80 = 240\<close> after the rejected attempt.  At
  332.41 bps, where a bit is \<open>4731699 / 32768 = 144.39999\<close> samples wide, the advance
  after a frame accepted at sample 72 is 1444: the \<^verbatim>\<open>float\<close> product
  \<open>nsamples_per_bit * 10\<close> is rounded to 1444.\<close>

theorem advance_after_frame_search_witness:
  "advance st_A = 1600 \<and> advance st_none = 240
   \<and> try_max_nsamples (rx_find_frame_args cfg_300 st_300) = 240
   \<and> (\<exists>s'. rx_iteration cfg_332 framebits_decode_ascii8 (turn_72 1885)
               (rx_init cfg_332 plan_300 ()) = Continue s'
          \<and> advance s' = 1444)"
proof -
  have D: "n_data_bits (fskp (rx_init cfg_300 plan_300 ())) = 8"
    "n_data_bits (fskp (rx_init cfg_332 plan_300 ())) = 8"
    by (simp_all add: rx_init_def plan_300_def)
  have lo: "Finite 0 \<le> fsk_confidence_threshold cfg_300"
    and hi: "\<not> Finite 3 \<le> fsk_confidence_threshold cfg_300"
    and hi': "\<not> Finite 3 \<le> fsk_confidence_threshold cfg_332"
    by (simp_all add: cfg_300_simps cfg_332_simps less_eq_cfloat_def)
  from advance_after_frame_search [OF prepare_A fits_300 found_A iteration_A]
  have a: "advance st_A = 1600"
    unfolding if_not_P [OF hi] npb_300 overscan_300 D
    by (simp add: float_eval)
  from advance_after_frame_search [OF prepare_none fits_300 found_none iteration_none]
  have b: "advance st_none = 240"
    unfolding if_P [OF lo] by (simp add: args_300)
  have found: "fsk_find_frame (turn_72 1885) (rx_find_frame_args cfg_332 st_332)
      = (Finite 3, 0x505, 72)"
    by (simp add: turn_72_def find_72_def)
  have prod: "mul32 (Finite (4731699 / 32768)) (Finite 10) = Finite 1444"
    by (simp add: mul32_def fp_mul_def isinf_def rnd32_eval [where e = 10] round_half_even_def
          power_int_minus)
  from advance_after_frame_search [OF prepare_332 fits_332 found iteration_332]
  have "advance ((rx_accept_frame cfg_332 framebits_decode_ascii8 (Finite 3) 72 st_332)
                   \<lparr> decoder_state := (),
                     stdout := stdout (rx_accept_frame cfg_332 framebits_decode_ascii8
                                         (Finite 3) 72 st_332)
                               @ map printable_char [0x41] \<rparr>) = 1444"
    unfolding if_not_P [OF hi'] npb_332 overscan_332 D
    by (simp add: prod u32_to_float_def rnd32_numeral add32_def sub32_def fp_add_def fp_sub_def
          isinf_def float_to_u32_def float_to_int_def c_trunc_def)
  with iteration_332 have c: "\<exists>s'. rx_iteration cfg_332 framebits_decode_ascii8 (turn_72 1885)
               (rx_init cfg_332 plan_300 ()) = Continue s' \<and> advance s' = 1444"
    by blast
  from a b c show ?thesis by (simp add: args_300)
qed

text \<open>In exact arithmetic the same advance would be 1443.\<close>

lemma advance_332_in_exact_arithmetic:
  "c_trunc (72 + fval (nsamples_per_bit cfg_332) * 10 - 72) = 1443"
  by (simp add: npb_332 c_trunc_def)

section \<open>The values of the NOCARRIER report\<close>

lemma unat_ucast_32_64: "unat (ucast (w :: u32) :: u64) = unat w"
proof -
  have "unat w < 2 ^ 64" using unsigned_less [of w, where 'a = nat] by simp
  then show ?thesis by (simp add: unsigned_ucast_eq take_bit_nat_eq_self)
qed

lemma frame_bits_no_wrap:
  assumes "unat nframes * (unat (D :: u32) + 2) < 2 ^ 32"
  shows "unat ((nframes :: u32) * (D + 2)) = unat nframes * (unat D + 2)"
proof (cases "nframes = 0")
  case True
  then show ?thesis by simp
next
  case False
  then have pos: "1 \<le> unat nframes" by (simp add: unat_gt_0 Suc_le_eq)
  have "1 * (unat D + 2) \<le> unat nframes * (unat D + 2)" by (rule mult_le_mono1 [OF pos])
  then have "unat D + 2 \<le> unat nframes * (unat D + 2)" by simp
  with assms have "unat D + unat (2 :: u32) < 2 ^ LENGTH(32)" by simp
  then have D2: "unat (D + 2) = unat D + 2" by (simp add: unat_add_lem [THEN iffD1])
  have "unat nframes * unat (D + 2) < 2 ^ LENGTH(32)" using assms D2 by simp
  then have "unat (nframes * (D + 2)) = unat nframes * unat (D + 2)"
    by (simp only: unat_mult_lem)
  with D2 show ?thesis by simp
qed

lemma mult_no_wrap_64:
  assumes "unat (a :: u64) * unat (b :: u64) < 2 ^ 64"
  shows "unat (a * b) = unat a * unat b"
proof -
  have "unat a * unat b < 2 ^ LENGTH(64)" using assms by simp
  then show ?thesis by (simp only: unat_mult_lem)
qed

lemma rnd32_nat_cases:
  assumes "n < 2 ^ 64"
  shows "rnd32 (real n) = Finite 0 \<and> n = 0 \<or> (\<exists>r. rnd32 (real n) = Finite r \<and> 1 \<le> r)"
proof (cases "n = 0")
  case True
  then show ?thesis by (simp add: rnd_0_1)
next
  case False
  then have one: "1 \<le> real n" by simp
  have "real n < 2 ^ 64" using assms by (metis of_nat_less_numeral_power_cancel_iff)
  then have "2 * real n < 2 ^ 65" by simp
  also have "(2::real) ^ 65 \<le> 2 ^ 128" by simp
  finally have "2 * real n < 2 ^ 128" .
  from fp_round_ge_1 [OF one this, of 24 "- 149"] show ?thesis by (simp add: rnd32_def)
qed

lemma div32_nonneg_cases:
  assumes "a = 0 \<or> 1 \<le> a" and "1 \<le> b"
  shows "div32 (Finite a) (Finite b) = Plus_infinity \<or> (\<exists>t. div32 (Finite a) (Finite b) = Finite t)"
proof (cases "a = 0")
  case True
  with assms(2) show ?thesis
    by (simp add: div32_def fp_div_def isinf_def iszero_def signed_zero_def)
next
  case False
  with assms have "0 < a / b" by simp
  from fp_round_pos [OF this, of 24 "- 149" 128]
  have "rnd32 (a / b) = Plus_infinity \<or> (\<exists>t. rnd32 (a / b) = Finite t)"
    by (auto simp: rnd32_def)
  with False assms(2) show ?thesis
    by (simp add: div32_def fp_div_def isinf_def iszero_def)
qed

lemma float_throughput_cases:
  assumes "nsamples \<noteq> 0" and "spec_nbits_total plan nframes * unat rate < 2 ^ 64"
  shows "float_throughput plan rate nframes nsamples = Plus_infinity
         \<or> (\<exists>t. float_throughput plan rate nframes nsamples = Finite t)"
proof -
  have "unat nsamples < 2 ^ 64" using unsigned_less [of nsamples, where 'a = nat] by simp
  from rnd32_nat_cases [OF this] assms(1)
  obtain b where b: "rnd32 (real (unat nsamples)) = Finite b" "1 \<le> b"
    by (auto simp: unat_eq_0)
  from rnd32_nat_cases [OF assms(2)]
  obtain a where a: "rnd32 (real (spec_nbits_total plan nframes * unat rate)) = Finite a"
    "a = 0 \<or> 1 \<le> a"
    by auto
  show ?thesis
    unfolding float_throughput_def a(1) b(1) using a(2) b(2) by (rule div32_nonneg_cases)
qed

text \<open>
  Claim C6, as stated over the real numbers, fails: the program computes in
  \<^verbatim>\<open>float\<close>.  For RTTY at 48000 samples per second a bit is
  \<open>8651617 / 8192 = 1056.1056\<close> samples wide; after 3000 frames (21000 bits) of
  22178218 samples the report says \<open>(rate perfect)\<close>, although
  \<open>round (nbits_total * nsamples_per_bit)\<close> is 22178217: the \<^verbatim>\<open>float\<close> product
  is rounded to 22178218.
\<close>

theorem rate_perfect_by_float_rounding:
  "message_rate_note
     (report_no_carrier plan_rtty (sample_rate cfg_rtty) (bfsk_data_rate cfg_rtty)
        (nsamples_per_bit cfg_rtty) 3000 22178218 (Finite 9000)) = Some Rate_perfect
   \<and> spec_nbits_total plan_rtty 3000 = 21000
   \<and> round (real (spec_nbits_total plan_rtty 3000) * fval (nsamples_per_bit cfg_rtty)) = 22178217
   \<and> \<not> spec_rate_perfect plan_rtty (nsamples_per_bit cfg_rtty) 3000 22178218"
proof -
  have n: "spec_nbits_total plan_rtty 3000 = 21000"
    by (simp add: spec_nbits_total_def plan_rtty_def)
  have r: "round (real (spec_nbits_total plan_rtty 3000) * fval (nsamples_per_bit cfg_rtty))
      = 22178217"
    by (simp add: n npb_rtty round_def)
  have prod: "mul32 (Finite 21000) (Finite (8651617 / 8192)) = Finite 22178218"
    by (simp add: mul32_def fp_mul_def isinf_def rnd32_eval [where e = 24] round_half_even_def)
  have bits: "u64_to_float (u32_to_u64 (3000 * (n_data_bits plan_rtty + 2))) = Finite 21000"
    by (simp add: plan_rtty_def u32_to_u64_def u64_to_float_def rnd32_numeral)
  have test: "float_to_u64 (add64 (mul32 (u64_to_float
        (u32_to_u64 (3000 * (n_data_bits plan_rtty + 2)))) (nsamples_per_bit cfg_rtty))
        (Finite (1 / 2))) = 22178218"
    unfolding bits npb_rtty prod
    by (simp add: add64_def fp_add_def isinf_def rnd64_numeral_half float_to_u64_def
          float_to_int_def c_trunc_def)
  have "message_rate_note
     (report_no_carrier plan_rtty (sample_rate cfg_rtty) (bfsk_data_rate cfg_rtty)
        (nsamples_per_bit cfg_rtty) 3000 22178218 (Finite 9000)) = Some Rate_perfect"
    unfolding report_no_carrier_def Let_def test message_rate_note.simps by simp
  with n r show ?thesis by (simp add: spec_rate_perfect_def)
qed

text \<open>
  Claim C6, amended.  The NOCARRIER report prints \<open>ndata = nframes_decoded\<close>, the
  confidence \<open>confidence_total / nframes_decoded\<close> and the throughput
  \<open>nframes_decoded * (n_data_bits + 2) * sample_rate / carrier_nsamples\<close>, both
  quotients computed in \<^verbatim>\<open>float\<close>.  It appends \<open>(rate perfect)\<close> exactly when the
  \<^verbatim>\<open>float\<close> product \<open>nbits_total * nsamples_per_bit\<close>, with one half added and
  truncated, equals \<open>carrier_nsamples\<close>; otherwise it appends the skew
  \<open>|(throughput - data_rate) / data_rate| * 100\<close>, computed in \<^verbatim>\<open>float\<close> from the
  throughput printed, labelled \<open>slow\<close> when that throughput is below the data rate
  and \<open>fast\<close> when it is not.  This holds for a report on at least one sample, a
  positive data rate, and counts that fit their C types: \<open>nbits_total\<close> is computed
  in \<^verbatim>\<open>unsigned int\<close>, its product with the sample rate in
  \<^verbatim>\<open>unsigned long long\<close>.
\<close>

theorem report_no_carrier_values:
  assumes "nsamples \<noteq> 0" and "data_rate = Finite r" and "0 < r"
    and "spec_nbits_total plan nframes < 2 ^ 32"
    and "spec_nbits_total plan nframes * unat rate < 2 ^ 64"
  shows "report_no_carrier plan rate data_rate per_bit nframes nsamples conf_total =
     NOCARRIER nframes (div32 conf_total (u32_to_float nframes))
       (float_throughput plan rate nframes nsamples)
       (if float_rate_perfect plan per_bit nframes nsamples then Rate_perfect
        else Rate_skew
               (mul64 (fabs (div32 (sub32 (float_throughput plan rate nframes nsamples) data_rate)
                               data_rate))
                  (Finite 100))
               (if float_throughput plan rate nframes nsamples < data_rate
                then ''slow'' else ''fast''))"
proof -
  let ?N = "spec_nbits_total plan nframes"
  let ?nb = "u32_to_u64 (nframes * (n_data_bits plan + 2))"
  let ?T = "float_throughput plan rate nframes nsamples"
  have nb: "unat ?nb = ?N"
    using frame_bits_no_wrap [of nframes "n_data_bits plan"] assms(4)
    by (simp add: u32_to_u64_def unat_ucast_32_64 spec_nbits_total_def)
  have "unat ?nb * unat (u32_to_u64 rate) < 2 ^ 64"
    using assms(5) nb by (simp add: u32_to_u64_def unat_ucast_32_64)
  from mult_no_wrap_64 [OF this]
  have prod: "unat (?nb * u32_to_u64 rate) = ?N * unat rate"
    using nb by (simp add: u32_to_u64_def unat_ucast_32_64)
  have T: "div32 (u64_to_float (?nb * u32_to_u64 rate)) (u64_to_float nsamples) = ?T"
    unfolding u64_to_float_def prod float_throughput_def by (rule refl)
  have perfect:
    "(float_to_u64 (add64 (mul32 (u64_to_float ?nb) per_bit) (Finite (1 / 2))) = nsamples)
      = float_rate_perfect plan per_bit nframes nsamples"
    unfolding u64_to_float_def nb float_rate_perfect_def by (rule refl)
  have slow: "signbit (div32 (sub32 ?T data_rate) data_rate) = (?T < data_rate)"
    unfolding assms(2)
    using float_throughput_cases [OF assms(1,5)] assms(3) by (rule skew_sign)
  show ?thesis
    unfolding report_no_carrier_def Let_def T perfect slow
    by (rule refl)
qed

text \<open>The theorem at work: one frame in 1600 samples is rate perfect at 300 bps; at
  256 bps, where a bit is 187.5 samples wide, one frame in 2000 samples is 6.25 per
  cent slow and one frame in 1000 samples is 87.5 per cent fast.\<close>

theorem report_no_carrier_values_witness:
  "report_no_carrier plan_300 48000 (Finite 300) (Finite 160) 1 1600 (Finite 3)
     = NOCARRIER 1 (Finite 3) (Finite 300) Rate_perfect
   \<and> report_no_carrier plan_300 48000 (Finite 256) (Finite (375 / 2)) 1 2000 (Finite 3)
       = NOCARRIER 1 (Finite 3) (Finite 240) (Rate_skew (Finite (25 / 4)) ''slow'')
   \<and> report_no_carrier plan_300 48000 (Finite 256) (Finite (375 / 2)) 1 1000 (Finite 3)
       = NOCARRIER 1 (Finite 3) (Finite 480) (Rate_skew (Finite (175 / 2)) ''fast'')"
proof -
  have n: "spec_nbits_total plan_300 1 = 10"
    by (simp add: spec_nbits_total_def plan_300_def)
  have t: "float_throughput plan_300 48000 1 1600 = Finite 300"
    "float_throughput plan_300 48000 1 2000 = Finite 240"
    "float_throughput plan_300 48000 1 1000 = Finite 480"
    by (simp_all add: float_throughput_def n float_eval)
  have p: "float_rate_perfect plan_300 (Finite 160) 1 1600"
    "\<not> float_rate_perfect plan_300 (Finite (375 / 2)) 1 2000"
    "\<not> float_rate_perfect plan_300 (Finite (375 / 2)) 1 1000"
    by (simp_all add: float_rate_perfect_def n float_eval)
  have c: "div32 (Finite 3) (u32_to_float 1) = Finite 3" by (simp add: float_eval)
  have neg: "rnd32 (- 16) = Finite (- 16)" using rnd32_int [of "- 16"] by simp
  have sixteenth: "rnd32 (- (1 / 16)) = Finite (- (1 / 16))"
    using rnd32_dyadic [of "- 1" 4] by simp
  have eighths: "rnd32 (7 / 8) = Finite (7 / 8)" using rnd32_dyadic [of 7 3] by simp
  have quarter: "rnd64 (25 / 4) = Finite (25 / 4)" using rnd64_dyadic [of 25 2] by simp
  have slow: "mul64 (fabs (div32 (sub32 (Finite 240) (Finite 256)) (Finite 256))) (Finite 100)
      = Finite (25 / 4)"
    by (simp add: float_eval neg sixteenth quarter)
  have fast: "mul64 (fabs (div32 (sub32 (Finite 480) (Finite 256)) (Finite 256))) (Finite 100)
      = Finite (175 / 2)"
    by (simp add: float_eval eighths)
  have cmp: "Finite 240 < Finite 256" "\<not> Finite 480 < Finite 256"
    by (simp_all add: less_cfloat_def)
  have "report_no_carrier plan_300 48000 (Finite 300) (Finite 160) 1 1600 (Finite 3)
     = NOCARRIER 1 (Finite 3) (Finite 300) Rate_perfect"
    using report_no_carrier_values [of 1600 "Finite 300" 300 plan_300 1 48000 "Finite 160" "Finite 3"]
    by (simp add: n t p c)
  moreover
  have "report_no_carrier plan_300 48000 (Finite 256) (Finite (375 / 2)) 1 2000 (Finite 3)
       = NOCARRIER 1 (Finite 3) (Finite 240) (Rate_skew (Finite (25 / 4)) ''slow'')"
    using report_no_carrier_values
            [of 2000 "Finite 256" 256 plan_300 1 48000 "Finite (375 / 2)" "Finite 3"]
    by (simp add: n t p c slow cmp)
  moreover
  have "report_no_carrier plan_300 48000 (Finite 256) (Finite (375 / 2)) 1 1000 (Finite 3)
       = NOCARRIER 1 (Finite 3) (Finite 480) (Rate_skew (Finite (175 / 2)) ''fast'')"
    using report_no_carrier_values
            [of 1000 "Finite 256" 256 plan_300 1 48000 "Finite (375 / 2)" "Finite 3"]
    by (simp add: n t p c fast cmp)
  ultimately show ?thesis by blast
qed

text \<open>Where the counts do not fit: \<open>nbits_total\<close> is the product of two
  \<^verbatim>\<open>unsigned int\<close> values, so with 8 data bits 429496730 frames count as 4 bits,
  not as 4294967300.\<close>

lemma nbits_total_wraps:
  "u32_to_u64 (429496730 * (n_data_bits plan_300 + 2)) = 4
   \<and> spec_nbits_total plan_300 429496730 = 4294967300"
  by (simp add: plan_300_def u32_to_u64_def spec_nbits_total_def)

end
